theory Spec2Isabelle
  imports Complex_Main "HOL-Library.Word"
begin

unbundle bit_operations_syntax

section \<open>Values, errors and the state of the process\<close>

text \<open>
  The exceptions the program can raise.  A computation that may raise returns
  \<open>py_error + 'a\<close>, with \<open>Inl\<close> for the exception.
\<close>

datatype py_error =
  ValueError | IndexError | TypeError | EOFError | OverflowError | AttributeError | OSError

definition bnd :: "py_error + 'a \<Rightarrow> ('a \<Rightarrow> py_error + 'b) \<Rightarrow> py_error + 'b" where
  "bnd m f = (case m of Inl e \<Rightarrow> Inl e | Inr x \<Rightarrow> f x)"

text \<open>
  Python floats.  A finite value is the rational it denotes; the four special values of
  IEEE 754 that Python's \<open>float()\<close> can deliver (\<open>-0.0\<close>, \<open>inf\<close>, \<open>-inf\<close>,
  \<open>nan\<close>) are values of their own.  The arithmetic of floats rounds and overflows; it is
  not defined here but supplied by the runtime (see \<open>env\<close>), and only the comparisons,
  which are exact, \<open>round\<close> and the formatting are.
\<close>

datatype pyfloat = Fin rat | NegZero | PInf | NInf | NaN

text \<open>
  Configuration values: the dict \<open>cfg\<close> maps option names to ints, floats or a
  reference to a list object.  Dicts and lists are mutable objects that live in the
  store, so that aliasing is visible.
\<close>

type_synonym addr = nat

datatype pyval = VInt int | VFloat pyfloat | VList addr

datatype pyobj = ODict "string \<rightharpoonup> pyval" | OList "string list"

text \<open>
  The state of the process:
  \<^item> \<open>rnd\<close>, \<open>rpos\<close>: the stream of raw outcomes of the \<open>random\<close> module (one cell
    for each call to the generator, whatever the stream is after seeding) and the
    position in it;
  \<^item> \<open>urnd\<close>, \<open>upos\<close>: the operating system's entropy, read by \<open>os.urandom(16)\<close> (one
    cell for each call);
  \<^item> \<open>frnd\<close>, \<open>fpos\<close>: the random stream of the Faker instance;
  \<^item> \<open>store\<close>: the objects allocated so far; the address of an object is its index.

  Every theorem quantifies over the streams, so it holds for the stream the Mersenne
  Twister delivers.
\<close>

record world =
  rnd :: "nat \<Rightarrow> nat"
  rpos :: nat
  urnd :: "nat \<Rightarrow> nat"
  upos :: nat
  frnd :: "nat \<Rightarrow> nat"
  fpos :: nat
  store :: "pyobj list"

text \<open>
  The optional package Faker, as the program uses it: each operation turns one raw
  outcome of the instance's stream into a string.  \<open>estado_sigla\<close> is looked up with
  \<open>hasattr\<close>, so it may be absent.
\<close>

record faker =
  fk_first_name :: "nat \<Rightarrow> string"
  fk_last_name :: "nat \<Rightarrow> string"
  fk_name :: "nat \<Rightarrow> string"
  fk_free_email :: "nat \<Rightarrow> string"
  fk_company :: "nat \<Rightarrow> string"
  fk_job :: "nat \<Rightarrow> string"
  fk_city :: "nat \<Rightarrow> string"
  fk_estado_sigla :: "(nat \<Rightarrow> string) option"
  fk_address :: "nat \<Rightarrow> string"
  fk_url :: "nat \<Rightarrow> string"

text \<open>
  What the Python runtime supplies to a run and the source does not define:
  \<^item> \<open>FAKE\<close>: the module variable \<open>_FAKE\<close>, None when the import of Faker fails;
  \<^item> \<open>float_of_str\<close>: the builtin \<open>float()\<close> on a string, None where it raises
    ValueError;
  \<^item> \<open>float_sub\<close>, \<open>float_mul\<close>, \<open>float_add\<close>: the operations \<open>-\<close>, \<open>*\<close> and \<open>+\<close> on
    floats (IEEE 754 binary64: each result is rounded, and may overflow to an infinity);
  \<^item> \<open>small_year\<close>: how \<open>strftime\<close> renders \<open>%Y\<close> for a year below 1000, which depends on
    the platform (the C library of Linux does not pad it, others pad it to four digits);
  \<^item> \<open>now_year\<close>: \<open>datetime.now().year\<close>;
  \<^item> \<open>seed_stream\<close>: the stream of the \<open>random\<close> module after \<open>random.seed(n)\<close>;
  \<^item> \<open>fake_seed_stream\<close>: the stream of the Faker instance after \<open>seed_instance(n)\<close>;
  \<^item> \<open>can_open\<close>: whether \<open>open(name, "w")\<close> succeeds.
\<close>

record env =
  FAKE :: "faker option"
  float_of_str :: "string \<Rightarrow> pyfloat option"
  float_sub :: "pyfloat \<Rightarrow> pyfloat \<Rightarrow> pyfloat"
  float_mul :: "pyfloat \<Rightarrow> pyfloat \<Rightarrow> pyfloat"
  float_add :: "pyfloat \<Rightarrow> pyfloat \<Rightarrow> pyfloat"
  small_year :: "int \<Rightarrow> string"
  now_year :: int
  seed_stream :: "int \<Rightarrow> nat \<Rightarrow> nat"
  fake_seed_stream :: "int \<Rightarrow> nat \<Rightarrow> nat"
  can_open :: "string \<Rightarrow> bool"

type_synonym 'a action = "world \<Rightarrow> py_error + ('a \<times> world)"

text \<open>The object at an address, and a new object in the store.\<close>

definition obj_at :: "world \<Rightarrow> addr \<Rightarrow> pyobj option" where
  "obj_at w a = (if a < length (store w) then Some (store w ! a) else None)"

definition alloc :: "pyobj \<Rightarrow> world \<Rightarrow> addr \<times> world" where
  "alloc obj w = (length (store w), w\<lparr>store := store w @ [obj]\<rparr>)"

section \<open>The random sources\<close>

definition draw :: "world \<Rightarrow> nat \<times> world" where
  "draw w = (rnd w (rpos w), w\<lparr>rpos := Suc (rpos w)\<rparr>)"

definition fdraw :: "world \<Rightarrow> nat \<times> world" where
  "fdraw w = (frnd w (fpos w), w\<lparr>fpos := Suc (fpos w)\<rparr>)"

definition udraw :: "world \<Rightarrow> nat \<times> world" where
  "udraw w = (urnd w (upos w), w\<lparr>upos := Suc (upos w)\<rparr>)"

text \<open>\<open>random.randint(a, b)\<close>: raises ValueError on an empty range.\<close>

definition randint :: "int \<Rightarrow> int \<Rightarrow> int action" where
  "randint a b w =
     (if b < a then Inl ValueError
      else (case draw w of (r, w') \<Rightarrow> Inr (a + int (r mod nat (b - a + 1)), w')))"

text \<open>\<open>random.choice(seq)\<close>: raises IndexError on an empty sequence.\<close>

definition choice :: "'a list \<Rightarrow> 'a action" where
  "choice xs w =
     (if xs = [] then Inl IndexError
      else (case draw w of (r, w') \<Rightarrow> Inr (xs ! (r mod length xs), w')))"

text \<open>\<open>random.random()\<close>: one of the 2^53 floats k / 2^53 of [0, 1).\<close>

definition random_random :: "world \<Rightarrow> rat \<times> world" where
  "random_random w =
     (case draw w of (r, w') \<Rightarrow> (of_nat (r mod 2 ^ 53) / 2 ^ 53, w'))"

text \<open>
  \<open>random.choices(population, k=n)\<close>: n indices \<open>floor(random() * len(population))\<close>;
  on an empty population the index lookup raises IndexError.
\<close>

fun choices :: "'a list \<Rightarrow> nat \<Rightarrow> 'a list action" where
  "choices xs 0 w = Inr ([], w)"
| "choices xs (Suc k) w =
     (case random_random w of (u, w') \<Rightarrow>
        if xs = [] then Inl IndexError
        else bnd (choices xs k w')
               (\<lambda>(ys, w''). Inr (xs ! nat \<lfloor>u * of_nat (length xs)\<rfloor> # ys, w'')))"

section \<open>Strings\<close>

text \<open>
  A Python \<open>str\<close> is modelled by its UTF-8 bytes, the bytes the output file holds.
  The case conversions and \<open>strip\<close> below act on ASCII; the program applies them to
  its own tables, whose only capitals are ASCII, and to the lines the user types.
\<close>

definition digit_char :: "nat \<Rightarrow> char" where
  "digit_char d = char_of (48 + d)"

function str_nat :: "nat \<Rightarrow> string" where
  "str_nat n = (if n < 10 then [digit_char n] else str_nat (n div 10) @ [digit_char (n mod 10)])"
  by pat_completeness auto
termination
  by (relation "measure (\<lambda>n. n)") auto

declare str_nat.simps [simp del]

text \<open>\<open>str(i)\<close> for an int.\<close>

definition str_int :: "int \<Rightarrow> string" where
  "str_int i = (if i < 0 then CHR ''-'' # str_nat (nat (- i)) else str_nat (nat i))"

text \<open>The format \<open>{i:0Nd}\<close>: zero padding to width N, the sign first.\<close>

definition zero_pad :: "nat \<Rightarrow> int \<Rightarrow> string" where
  "zero_pad n i =
     (if i < 0 then CHR ''-'' # replicate (n - 1 - length (str_nat (nat (- i)))) CHR ''0'' @ str_nat (nat (- i))
      else replicate (n - length (str_nat (nat i))) CHR ''0'' @ str_nat (nat i))"

definition lower_char :: "char \<Rightarrow> char" where
  "lower_char c = (if 65 \<le> (of_char c :: nat) \<and> (of_char c :: nat) \<le> 90 then char_of (of_char c + 32 :: nat) else c)"

definition upper_char :: "char \<Rightarrow> char" where
  "upper_char c = (if 97 \<le> (of_char c :: nat) \<and> (of_char c :: nat) \<le> 122 then char_of (of_char c - 32 :: nat) else c)"

definition lower :: "string \<Rightarrow> string" where
  "lower s = map lower_char s"

definition capitalize :: "string \<Rightarrow> string" where
  "capitalize s = (case s of [] \<Rightarrow> [] | c # cs \<Rightarrow> upper_char c # map lower_char cs)"

text \<open>The separators \<open>str.strip()\<close> removes, among the ASCII characters.\<close>

definition is_space :: "char \<Rightarrow> bool" where
  "is_space c = ((of_char c :: nat) \<in> {9, 10, 11, 12, 13, 28, 29, 30, 31, 32})"

definition strip :: "string \<Rightarrow> string" where
  "strip s = rev (dropWhile is_space (rev (dropWhile is_space s)))"

definition is_digit :: "char \<Rightarrow> bool" where
  "is_digit c = (48 \<le> (of_char c :: nat) \<and> (of_char c :: nat) \<le> 57)"

definition isdigit :: "string \<Rightarrow> bool" where
  "isdigit s = (s \<noteq> [] \<and> list_all is_digit s)"

definition digit_val :: "char \<Rightarrow> int" where
  "digit_val c = int (of_char c) - 48"

text \<open>\<open>int(s)\<close> on a string of decimal digits.\<close>

definition int_of_digits :: "string \<Rightarrow> int" where
  "int_of_digits s = foldl (\<lambda>acc c. 10 * acc + digit_val c) 0 s"

text \<open>\<open>sep.join(xs)\<close>.\<close>

fun join :: "string \<Rightarrow> string list \<Rightarrow> string" where
  "join sep [] = []"
| "join sep [x] = x"
| "join sep (x # y # ys) = x @ sep @ join sep (y # ys)"

text \<open>\<open>s.replace(c, t)\<close> for a single character c.\<close>

definition replace_char :: "char \<Rightarrow> string \<Rightarrow> string \<Rightarrow> string" where
  "replace_char c t s = concat (map (\<lambda>x. if x = c then t else [x]) s)"

text \<open>\<open>s.split(",")\<close>: the fields between the commas, at least one.\<close>

fun split_comma :: "string \<Rightarrow> string list" where
  "split_comma [] = [[]]"
| "split_comma (c # cs) =
     (if c = CHR '','' then [] # split_comma cs
      else (case split_comma cs of [] \<Rightarrow> [[c]] | f # fs \<Rightarrow> (c # f) # fs))"

section \<open>The fallback tables\<close>

definition FIRST_NAMES :: "string list" where
  "FIRST_NAMES =
   [''Gabriel'', ''Maria'', ''Ana'', (''Jo'' @ [CHR 0xC3, CHR 0xA3] @ ''o''), ''Pedro'',
    ''Lucas'', ''Julia'', ''Mariana'', ''Rafael'', ''Beatriz'']"

definition LAST_NAMES :: "string list" where
  "LAST_NAMES =
   [''Silva'', ''Santos'', ''Oliveira'', ''Souza'', ''Pereira'', ''Lima'', ''Carvalho'',
    ''Gomes'', ''Almeida'', ''Ferreira'']"

definition CITIES :: "string list" where
  "CITIES =
   [(''S'' @ [CHR 0xC3, CHR 0xA3] @ ''o Paulo''), ''Rio de Janeiro'',
    (''Cuiab'' @ [CHR 0xC3, CHR 0xA1]), ''Belo Horizonte'', ''Curitiba'', ''Salvador'',
    ''Fortaleza'', ''Recife'']"

definition STATES :: "string list" where
  "STATES =
   [''SP'', ''RJ'', ''MT'', ''MG'', ''PR'', ''BA'', ''CE'', ''PE'']"

definition COMPANIES :: "string list" where
  "COMPANIES =
   [''InovaTech'', ''Alpha Sistemas'', ''Data+Brasil'', ''Azul Digital'', ''TecnoSul'',
    ''Norte Cloud'']"

definition JOBS :: "string list" where
  "JOBS =
   [''Analista de Sistemas'', ''Engenheiro de Software'',
    (''Suporte T'' @ [CHR 0xC3, CHR 0xA9] @ ''cnico''), ''Cientista de Dados'', ''DevOps'']"

definition DOMAINS :: "string list" where
  "DOMAINS =
   [''exemplo.com'', ''empresa.com.br'', ''corp.br'', ''mail.com'']"

definition LOREM_WORDS :: "string list" where
  "LOREM_WORDS =
   [''lorem'', ''ipsum'', ''dolor'', ''sit'', ''amet'', ''consectetur'', ''adipiscing'',
    ''elit'', ''sed'', ''do'', ''eiusmod'', ''tempor'', ''incididunt'', ''ut'', ''labore'',
    ''et'', ''dolore'', ''magna'', ''aliqua'', ''ut'', ''enim'', ''ad'', ''minim'',
    ''veniam'', ''quis'', ''nostrud'', ''exercitation'', ''ullamco'', ''laboris'', ''nisi'',
    ''ut'', ''aliquip'', ''ex'', ''ea'', ''commodo'', ''consequat'', ''duis'', ''aute'',
    ''irure'', ''dolor'', ''in'', ''reprehenderit'', ''in'', ''voluptate'', ''velit'',
    ''esse'', ''cillum'', ''dolore'', ''eu'', ''fugiat'', ''nulla'', ''pariatur'',
    ''excepteur'', ''sint'', ''occaecat'', ''cupidatat'', ''non'', ''proident'', ''sunt'',
    ''in'', ''culpa'', ''qui'', ''officia'', ''deserunt'', ''mollit'', ''anim'', ''id'',
    ''est'', ''laborum'']"
section \<open>Domain value generators\<close>

text \<open>A call of a Faker operation: one outcome of the instance's stream, rendered.\<close>

definition fake_call :: "(nat \<Rightarrow> string) \<Rightarrow> string action" where
  "fake_call f w = (case fdraw w of (r, w') \<Rightarrow> Inr (f r, w'))"

definition rand_first_name :: "env \<Rightarrow> string action" where
  "rand_first_name E w =
     (case FAKE E of
        Some fk \<Rightarrow> fake_call (fk_first_name fk) w
      | None \<Rightarrow> choice FIRST_NAMES w)"

definition rand_last_name :: "env \<Rightarrow> string action" where
  "rand_last_name E w =
     (case FAKE E of
        Some fk \<Rightarrow> fake_call (fk_last_name fk) w
      | None \<Rightarrow> choice LAST_NAMES w)"

definition rand_full_name :: "env \<Rightarrow> string action" where
  "rand_full_name E w =
     (case FAKE E of
        Some fk \<Rightarrow> fake_call (fk_name fk) w
      | None \<Rightarrow>
          bnd (rand_first_name E w) (\<lambda>(fn, w1).
          bnd (rand_last_name E w1) (\<lambda>(ln, w2).
          Inr (fn @ '' '' @ ln, w2))))"

definition rand_email :: "env \<Rightarrow> string action" where
  "rand_email E w =
     (case FAKE E of
        Some fk \<Rightarrow> fake_call (fk_free_email fk) w
      | None \<Rightarrow>
          bnd (rand_first_name E w) (\<lambda>(fn, w1).
          bnd (rand_last_name E w1) (\<lambda>(ln, w2).
          bnd (choice DOMAINS w2) (\<lambda>(dom, w3).
          Inr (lower fn @ ''.'' @ lower ln @ ''@'' @ dom, w3)))))"

definition rand_phone :: "string action" where
  "rand_phone w =
     bnd (randint 11 99 w) (\<lambda>(ddd, w1).
     bnd (randint 90000 99999 w1) (\<lambda>(prefixo, w2).
     bnd (randint 0 9999 w2) (\<lambda>(sufixo, w3).
     Inr (''('' @ str_int ddd @ '') '' @ zero_pad 5 prefixo @ ''-'' @ zero_pad 4 sufixo, w3))))"

definition rand_company :: "env \<Rightarrow> string action" where
  "rand_company E w =
     (case FAKE E of
        Some fk \<Rightarrow> fake_call (fk_company fk) w
      | None \<Rightarrow> choice COMPANIES w)"

definition rand_job :: "env \<Rightarrow> string action" where
  "rand_job E w =
     (case FAKE E of
        Some fk \<Rightarrow> fake_call (fk_job fk) w
      | None \<Rightarrow> choice JOBS w)"

definition rand_city :: "env \<Rightarrow> string action" where
  "rand_city E w =
     (case FAKE E of
        Some fk \<Rightarrow> fake_call (fk_city fk) w
      | None \<Rightarrow> choice CITIES w)"

definition rand_state :: "env \<Rightarrow> string action" where
  "rand_state E w =
     (case FAKE E of
        Some fk \<Rightarrow>
          (case fk_estado_sigla fk of
             Some sigla \<Rightarrow> fake_call sigla w
           | None \<Rightarrow> choice STATES w)
      | None \<Rightarrow> choice STATES w)"

definition rand_address :: "env \<Rightarrow> string action" where
  "rand_address E w =
     (case FAKE E of
        Some fk \<Rightarrow>
          bnd (fake_call (fk_address fk) w) (\<lambda>(a, w1).
          Inr (replace_char (char_of (10 :: nat)) '', '' a, w1))
      | None \<Rightarrow>
          bnd (randint 1 9999 w) (\<lambda>(num, w1).
          bnd (rand_last_name E w1) (\<lambda>(ln, w2).
          bnd (rand_city E w2) (\<lambda>(city, w3).
          bnd (rand_state E w3) (\<lambda>(st, w4).
          Inr (''Rua '' @ ln @ '', '' @ str_int num @ '', '' @ city @ '' - '' @ st, w4))))))"

text \<open>The list comprehension \<open>[random.randint(0, 9) for _ in range(n)]\<close>.\<close>

fun rand_digits :: "nat \<Rightarrow> int list action" where
  "rand_digits 0 w = Inr ([], w)"
| "rand_digits (Suc n) w =
     bnd (randint 0 9 w) (\<lambda>(d, w').
     bnd (rand_digits n w') (\<lambda>(ds, w'').
     Inr (d # ds, w'')))"

definition rand_cep :: "bool \<Rightarrow> string action" where
  "rand_cep formatado w =
     bnd (rand_digits 8 w) (\<lambda>(d, w').
     Inr (if formatado then
            str_int (d ! 0) @ str_int (d ! 1) @ str_int (d ! 2) @ str_int (d ! 3) @
            str_int (d ! 4) @ ''-'' @ str_int (d ! 5) @ str_int (d ! 6) @ str_int (d ! 7)
          else concat (map str_int d), w'))"

text \<open>\<open>random.randint\<close> raises TypeError (as of Python 3.12) on a bound that is not an int.\<close>

definition rand_int :: "pyval \<Rightarrow> pyval \<Rightarrow> int action" where
  "rand_int min_val max_val w =
     (case (min_val, max_val) of
        (VInt a, VInt b) \<Rightarrow> randint a b w
      | _ \<Rightarrow> Inl TypeError)"

definition rand_bool :: "bool action" where
  "rand_bool w = choice [True, False] w"

subsection \<open>CPF with check digits\<close>

text \<open>\<open>list(range(n + 1, 1, -1))\<close>: the weights n+1, n, ..., 2.\<close>

fun peso :: "nat \<Rightarrow> int list" where
  "peso 0 = []"
| "peso (Suc n) = int (Suc (Suc n)) # peso n"

definition cpf_dv :: "int list \<Rightarrow> int" where
  "cpf_dv digs =
     (let soma = sum_list (map (\<lambda>(d, p). d * p) (zip digs (peso (length digs))));
          resto = soma mod 11
      in if resto < 2 then 0 else 11 - resto)"

definition cpf_nums :: "int list \<Rightarrow> int list" where
  "cpf_nums base = (let dv1 = cpf_dv base; dv2 = cpf_dv (base @ [dv1]) in base @ [dv1, dv2])"

definition cpf_format :: "bool \<Rightarrow> int list \<Rightarrow> string" where
  "cpf_format formatado nums =
     (if formatado then
        str_int (nums ! 0) @ str_int (nums ! 1) @ str_int (nums ! 2) @ ''.'' @
        str_int (nums ! 3) @ str_int (nums ! 4) @ str_int (nums ! 5) @ ''.'' @
        str_int (nums ! 6) @ str_int (nums ! 7) @ str_int (nums ! 8) @ ''-'' @
        str_int (nums ! 9) @ str_int (nums ! 10)
      else concat (map str_int nums))"

definition rand_cpf :: "bool \<Rightarrow> string action" where
  "rand_cpf formatado w =
     bnd (rand_digits 9 w) (\<lambda>(base, w').
     Inr (cpf_format formatado (cpf_nums base), w'))"

subsection \<open>Text and URL\<close>

definition rand_sentence :: "int \<Rightarrow> int \<Rightarrow> string action" where
  "rand_sentence min_words max_words w =
     bnd (randint min_words max_words w) (\<lambda>(n, w1).
     bnd (choices LOREM_WORDS (nat n) w1) (\<lambda>(words, w2).
     Inr (capitalize (join '' '' words) @ ''.'', w2)))"

definition rand_url :: "env \<Rightarrow> string action" where
  "rand_url E w =
     (case FAKE E of
        Some fk \<Rightarrow> fake_call (fk_url fk) w
      | None \<Rightarrow>
          bnd (choice [''site'', ''app'', ''portal'', ''blog''] w) (\<lambda>(host, w1).
          bnd (choice [''com'', ''com.br'', ''net'', ''org''] w1) (\<lambda>(tld, w2).
          bnd (choice [''home'', ''produto'', ''contato'', ''sobre''] w2) (\<lambda>(path, w3).
          bnd (randint 1 999 w3) (\<lambda>(n, w4).
          Inr (''https://'' @ host @ str_int n @ ''.'' @ tld @ ''/'' @ path, w4))))))"

subsection \<open>Floats\<close>

definition is_nan :: "pyfloat \<Rightarrow> bool" where
  "is_nan x = (case x of NaN \<Rightarrow> True | _ \<Rightarrow> False)"

definition is_inf :: "pyfloat \<Rightarrow> bool" where
  "is_inf x = (case x of PInf \<Rightarrow> True | NInf \<Rightarrow> True | _ \<Rightarrow> False)"

definition is_zero :: "pyfloat \<Rightarrow> bool" where
  "is_zero x = (case x of Fin q \<Rightarrow> q = 0 | NegZero \<Rightarrow> True | _ \<Rightarrow> False)"

text \<open>The sign bit.\<close>

definition sign_bit :: "pyfloat \<Rightarrow> bool" where
  "sign_bit x = (case x of Fin q \<Rightarrow> q < 0 | NegZero \<Rightarrow> True | NInf \<Rightarrow> True | _ \<Rightarrow> False)"

text \<open>The value of a finite float.\<close>

definition fin_val :: "pyfloat \<Rightarrow> rat" where
  "fin_val x = (case x of Fin q \<Rightarrow> q | _ \<Rightarrow> 0)"

text \<open>
  The order of the comparison operators: a rank (\<open>-inf\<close>, finite, \<open>inf\<close>) and the
  value; \<open>-0.0\<close> equals \<open>0.0\<close>; every comparison with \<open>nan\<close> is false.
\<close>

definition frank :: "pyfloat \<Rightarrow> int" where
  "frank x = (case x of NInf \<Rightarrow> - 1 | PInf \<Rightarrow> 1 | _ \<Rightarrow> 0)"

definition fgt :: "pyfloat \<Rightarrow> pyfloat \<Rightarrow> bool" where
  "fgt a b = (\<not> is_nan a \<and> \<not> is_nan b \<and>
     (frank b < frank a \<or> (frank a = frank b \<and> fin_val b < fin_val a)))"

definition fle :: "pyfloat \<Rightarrow> pyfloat \<Rightarrow> bool" where
  "fle a b = (\<not> is_nan a \<and> \<not> is_nan b \<and>
     (frank a < frank b \<or> (frank a = frank b \<and> fin_val a \<le> fin_val b)))"

text \<open>Rounding to the nearest integer, ties to the even one.\<close>

definition round_half_even :: "rat \<Rightarrow> int" where
  "round_half_even q =
     (let f = \<lfloor>q\<rfloor>; r = q - of_int f
      in if r < 1 / 2 then f
         else if 1 / 2 < r then f + 1
         else if even f then f else f + 1)"

text \<open>
  \<open>round(x, n)\<close> on a float: the multiple of \<open>10^-n\<close> nearest to x, ties to even, with
  the sign of x; infinities and \<open>nan\<close> are returned as they are.  (Python returns the
  float nearest to that multiple; printed with n places it gives the multiple again.)
  For a negative n the multiple can be too large for a float, and \<open>round\<close> raises
  OverflowError (\<open>round_overflows\<close>).
\<close>

definition scale10 :: "rat \<Rightarrow> int \<Rightarrow> rat" where
  "scale10 q n = (if 0 \<le> n then q * 10 ^ nat n else q / 10 ^ nat (- n))"

definition py_round :: "pyfloat \<Rightarrow> int \<Rightarrow> pyfloat" where
  "py_round x n =
     (case x of
        Fin q \<Rightarrow>
          (let r = scale10 (of_int (round_half_even (scale10 q n))) (- n)
           in if r = 0 \<and> q < 0 then NegZero else Fin r)
      | _ \<Rightarrow> x)"

definition round_overflows :: "pyfloat \<Rightarrow> bool" where
  "round_overflows x = (2 ^ 1024 - 2 ^ 970 \<le> \<bar>fin_val x\<bar>)"

text \<open>
  The format \<open>{x:.Nf}\<close>: the sign, the integer part, and N digits after a point (no
  point when N is 0), the value rounded to N places, ties to even.
\<close>

definition format_f :: "pyfloat \<Rightarrow> nat \<Rightarrow> string" where
  "format_f x n =
     (case x of
        NaN \<Rightarrow> ''nan''
      | PInf \<Rightarrow> ''inf''
      | NInf \<Rightarrow> ''-inf''
      | _ \<Rightarrow>
          (let k = nat (round_half_even (\<bar>fin_val x\<bar> * 10 ^ n))
           in (if sign_bit x then ''-'' else '''') @ str_nat (k div 10 ^ n) @
              (if n = 0 then '''' else ''.'' @ zero_pad n (int (k mod 10 ^ n)))))"

text \<open>
  Numbers of either kind.  An int that meets a float is converted; the conversion
  raises OverflowError from \<open>2^1024 - 2^970\<close> on.
\<close>

definition to_float :: "pyval \<Rightarrow> py_error + pyfloat" where
  "to_float v =
     (case v of
        VInt i \<Rightarrow> if 2 ^ 1024 - 2 ^ 970 \<le> \<bar>i\<bar> then Inl OverflowError else Inr (Fin (of_int i))
      | VFloat x \<Rightarrow> Inr x
      | VList a \<Rightarrow> Inl TypeError)"

text \<open>\<open>a > b\<close> on numbers; an int and a float are compared by their exact values.\<close>

definition num_gt :: "pyval \<Rightarrow> pyval \<Rightarrow> bool" where
  "num_gt a b =
     (case (a, b) of
        (VInt i, VInt j) \<Rightarrow> j < i
      | (VInt i, VFloat y) \<Rightarrow> fgt (Fin (of_int i)) y
      | (VFloat x, VInt j) \<Rightarrow> fgt x (Fin (of_int j))
      | (VFloat x, VFloat y) \<Rightarrow> fgt x y
      | _ \<Rightarrow> False)"

text \<open>\<open>a - b\<close> on numbers.\<close>

definition num_sub :: "env \<Rightarrow> pyval \<Rightarrow> pyval \<Rightarrow> py_error + pyval" where
  "num_sub E a b =
     (case (a, b) of
        (VInt i, VInt j) \<Rightarrow> Inr (VInt (i - j))
      | _ \<Rightarrow> bnd (to_float a) (\<lambda>x. bnd (to_float b) (\<lambda>y. Inr (VFloat (float_sub E x y)))))"

definition is_list :: "pyval \<Rightarrow> bool" where
  "is_list v = (case v of VList a \<Rightarrow> True | _ \<Rightarrow> False)"

text \<open>
  \<open>rand_float\<close>.  A list among the bounds raises TypeError (at the comparison or at
  the subtraction); \<open>round\<close> raises TypeError unless \<open>decimals\<close> is an int.
\<close>

definition rand_float :: "env \<Rightarrow> pyval \<Rightarrow> pyval \<Rightarrow> pyval \<Rightarrow> pyfloat action" where
  "rand_float E min_val max_val decimals w =
     (if is_list min_val \<or> is_list max_val then Inl TypeError
      else
        (let (lo, hi) = (if num_gt min_val max_val then (max_val, min_val) else (min_val, max_val))
         in case random_random w of (u, w') \<Rightarrow>
              bnd (num_sub E hi lo) (\<lambda>diff.
              bnd (to_float diff) (\<lambda>d.
              bnd (to_float lo) (\<lambda>l.
              (let val = float_add E (float_mul E (Fin u) d) l in
               case decimals of
                 VInt n \<Rightarrow>
                   if n < 0 \<and> round_overflows (py_round val n) then Inl OverflowError
                   else Inr (py_round val n, w')
               | _ \<Rightarrow> Inl TypeError))))))"

text \<open>
  The format specification of \<open>f"{x:.{dec}f}"\<close>: a precision that is negative, beyond
  \<open>2^31 - 1\<close> or not an int is not a format specification.
\<close>

definition format_spec_f :: "pyfloat \<Rightarrow> pyval \<Rightarrow> py_error + string" where
  "format_spec_f x dec =
     (case dec of
        VInt n \<Rightarrow> if n < 0 \<or> 2147483647 < n then Inl ValueError else Inr (format_f x (nat n))
      | _ \<Rightarrow> Inl ValueError)"

subsection \<open>Dates and times\<close>

text \<open>
  The proleptic Gregorian calendar of \<open>datetime\<close>.  A date is (year, month, day).
\<close>

type_synonym date = "int \<times> nat \<times> nat"

definition is_leap :: "int \<Rightarrow> bool" where
  "is_leap y = (y mod 4 = 0 \<and> (y mod 100 \<noteq> 0 \<or> y mod 400 = 0))"

definition days_in_month :: "int \<Rightarrow> nat \<Rightarrow> nat" where
  "days_in_month y m =
     (if m = 2 then (if is_leap y then 29 else 28)
      else if m \<in> {4, 6, 9, 11} then 30 else 31)"

text \<open>The day after.\<close>

definition next_day :: "date \<Rightarrow> date" where
  "next_day dt =
     (case dt of (y, m, d) \<Rightarrow>
        if d < days_in_month y m then (y, m, Suc d)
        else if m < 12 then (y, Suc m, 1)
        else (y + 1, 1, 1))"

text \<open>\<open>dt + timedelta(days=n)\<close> for n from 0 on; OverflowError past the year 9999.\<close>

fun add_days :: "date \<Rightarrow> nat \<Rightarrow> date" where
  "add_days dt 0 = dt"
| "add_days dt (Suc n) = add_days (next_day dt) n"

definition plus_days :: "date \<Rightarrow> nat \<Rightarrow> py_error + date" where
  "plus_days dt n = (let r = add_days dt n in if 9999 < fst r then Inl OverflowError else Inr r)"

text \<open>The number of days before the first of month m in year y, and the day of the year.\<close>

fun days_before_month :: "int \<Rightarrow> nat \<Rightarrow> nat" where
  "days_before_month y 0 = 0"
| "days_before_month y (Suc 0) = 0"
| "days_before_month y (Suc m) = days_before_month y m + days_in_month y m"

definition day_of_year :: "date \<Rightarrow> nat" where
  "day_of_year dt = (case dt of (y, m, d) \<Rightarrow> days_before_month y m + d)"

text \<open>\<open>datetime(y, m, d)\<close> raises ValueError outside the years 1 to 9999.\<close>

definition mk_date :: "int \<Rightarrow> nat \<Rightarrow> nat \<Rightarrow> py_error + date" where
  "mk_date y m d =
     (if y < 1 \<or> 9999 < y \<or> m < 1 \<or> 12 < m \<or> d < 1 \<or> days_in_month y m < d then Inl ValueError
      else Inr (y, m, d))"

text \<open>
  \<open>%Y\<close>: the decimal year.  From 1000 on it has its four digits; below, its width is
  the platform's (\<open>small_year\<close>).
\<close>

definition strftime_Y :: "env \<Rightarrow> int \<Rightarrow> string" where
  "strftime_Y E y = (if 1000 \<le> y then str_int y else small_year E y)"

text \<open>\<open>strftime("%Y-%m-%d")\<close>.\<close>

definition strftime_date :: "env \<Rightarrow> date \<Rightarrow> string" where
  "strftime_date E dt =
     (case dt of (y, m, d) \<Rightarrow>
        strftime_Y E y @ ''-'' @ zero_pad 2 (int m) @ ''-'' @ zero_pad 2 (int d))"

text \<open>\<open>strftime("%H:%M:%S")\<close> of the second s of a day.\<close>

definition strftime_time :: "nat \<Rightarrow> string" where
  "strftime_time s =
     zero_pad 2 (int (s div 3600)) @ '':'' @ zero_pad 2 (int (s mod 3600 div 60)) @ '':'' @
     zero_pad 2 (int (s mod 60))"

definition rand_date :: "env \<Rightarrow> pyval \<Rightarrow> pyval \<Rightarrow> string action" where
  "rand_date E year_start year_end w =
     bnd (rand_int year_start year_end w) (\<lambda>(y, w1).
     bnd (mk_date y 1 1) (\<lambda>start.
     bnd (mk_date y 12 31) (\<lambda>end'.
     (let delta_days = int (day_of_year end') - int (day_of_year start)
      in bnd (randint 0 delta_days w1) (\<lambda>(n, w2).
         bnd (plus_days start (nat n)) (\<lambda>rd.
         Inr (strftime_date E rd, w2)))))))"

definition rand_datetime :: "env \<Rightarrow> pyval \<Rightarrow> pyval \<Rightarrow> string action" where
  "rand_datetime E year_start year_end w =
     bnd (rand_int year_start year_end w) (\<lambda>(y, w1).
     bnd (mk_date y 1 1) (\<lambda>start.
     bnd (mk_date y 12 31) (\<lambda>end'.
     (let total_seconds = (int (day_of_year end') - int (day_of_year start)) * 86400 + 86399
      in bnd (randint 0 total_seconds w1) (\<lambda>(offset, w2).
         bnd (plus_days start (nat offset div 86400)) (\<lambda>dt.
         Inr (strftime_date E dt @ '' '' @ strftime_time (nat offset mod 86400), w2)))))))"

subsection \<open>UUID\<close>

text \<open>
  \<open>uuid.uuid4()\<close>: sixteen bytes of \<open>os.urandom\<close> read as a 128-bit number, the
  variant and version bits set; \<open>str\<close> renders 32 hexadecimal digits in five groups.
\<close>

definition uuid4_int :: "nat \<Rightarrow> int" where
  "uuid4_int r =
     (((int (r mod 2 ^ 128) AND NOT (push_bit 48 0xc000)) OR push_bit 48 0x8000)
        AND NOT (push_bit 64 0xf000)) OR push_bit 76 4"

definition hex_char :: "nat \<Rightarrow> char" where
  "hex_char d = (if d < 10 then char_of (48 + d) else char_of (87 + d))"

definition hex32 :: "int \<Rightarrow> string" where
  "hex32 u = map (\<lambda>i. hex_char (nat (u div 16 ^ (31 - i) mod 16))) [0..<32]"

definition uuid_str :: "int \<Rightarrow> string" where
  "uuid_str u =
     (let hex = hex32 u
      in take 8 hex @ ''-'' @ take 4 (drop 8 hex) @ ''-'' @ take 4 (drop 12 hex) @ ''-'' @
         take 4 (drop 16 hex) @ ''-'' @ drop 20 hex)"

definition rand_uuid :: "string action" where
  "rand_uuid w = (case udraw w of (r, w') \<Rightarrow> Inr (uuid_str (uuid4_int r), w'))"

section \<open>Column types\<close>

record ColumnType =
  code :: string
  label :: string
  needs_config :: bool

definition mk_ColumnType :: "string \<times> string \<times> bool \<Rightarrow> ColumnType" where
  "mk_ColumnType t = (case t of (c, l, n) \<Rightarrow> \<lparr>code = c, label = l, needs_config = n\<rparr>)"

definition COLUMN_TYPES :: "ColumnType list" where
  "COLUMN_TYPES = map mk_ColumnType
   [
    (''full_name'', ''Nome completo'', False),
    (''first_name'', ''Nome'', False),
    (''last_name'', ''Sobrenome'', False),
    (''email'', ''E-mail'', False),
    (''phone'', ''Telefone (BR)'', False),
    (''cpf'', ''CPF (falso)'', False),
    (''address'', (''Endere'' @ [CHR 0xC3, CHR 0xA7] @ ''o completo''), False),
    (''city'', ''Cidade'', False),
    (''state'', ''Estado (UF)'', False),
    (''cep'', ''CEP (falso)'', False),
    (''date'', ''Data (YYYY-MM-DD)'', True),
    (''datetime'', ''Data e Hora (YYYY-MM-DD HH:MM:SS)'', True),
    (''int'', (''N'' @ [CHR 0xC3, CHR 0xBA] @ ''mero inteiro''), True),
    (''float'', (''N'' @ [CHR 0xC3, CHR 0xBA] @ ''mero decimal''), True),
    (''bool'', ''Booleano'', False),
    (''uuid'', ''UUID v4'', False),
    (''company'', ''Empresa'', False),
    (''job'', ''Cargo (trabalho)'', False),
    (''url'', ''URL'', False),
    (''sentence'', ''Texto curto (lorem)'', False),
    (''picklist'', (''Lista de op'' @ [CHR 0xC3, CHR 0xA7, CHR 0xC3, CHR 0xB5] @ ''es (categorias)''), True),
    (''price'', (''Pre'' @ [CHR 0xC3, CHR 0xA7] @ ''o monet'' @ [CHR 0xC3, CHR 0xA1] @ ''rio''), True)   ]"

section \<open>Prompts\<close>

text \<open>
  The standard input is the list of the lines still to be read; \<open>input()\<close> raises
  EOFError when none is left.  What the prompts print is not modelled.  The lines are
  taken to be ASCII.
\<close>

type_synonym 'a prompt = "string list \<Rightarrow> py_error + ('a \<times> string list)"

text \<open>
  \<open>prompt_int\<close>: the loop asks again after a line that is not a number in range.
  \<open>int()\<close> raises ValueError on more than 4300 digits.
\<close>

fun prompt_int :: "int option \<Rightarrow> int option \<Rightarrow> int option \<Rightarrow> int prompt" where
  "prompt_int min_val max_val dflt [] = Inl EOFError"
| "prompt_int min_val max_val dflt (l # ls) =
     (let raw = strip l in
      if raw = [] \<and> dflt \<noteq> None then Inr (the dflt, ls)
      else if \<not> isdigit raw then prompt_int min_val max_val dflt ls
      else if 4300 < length raw then Inl ValueError
      else
        (let val = int_of_digits raw in
         if min_val \<noteq> None \<and> val < the min_val then prompt_int min_val max_val dflt ls
         else if max_val \<noteq> None \<and> the max_val < val then prompt_int min_val max_val dflt ls
         else Inr (val, ls)))"

fun prompt_float :: "env \<Rightarrow> pyfloat option \<Rightarrow> pyfloat prompt" where
  "prompt_float E dflt [] = Inl EOFError"
| "prompt_float E dflt (l # ls) =
     (let raw = replace_char CHR '','' ''.'' (strip l) in
      if raw = [] \<and> dflt \<noteq> None then Inr (the dflt, ls)
      else
        (case float_of_str E raw of
           Some x \<Rightarrow> Inr (x, ls)
         | None \<Rightarrow> prompt_float E dflt ls))"

definition prompt_str :: "string option \<Rightarrow> string prompt" where
  "prompt_str dflt inp =
     (case inp of
        [] \<Rightarrow> Inl EOFError
      | l # ls \<Rightarrow>
          (let raw = strip l in
           if raw = [] \<and> dflt \<noteq> None then Inr (the dflt, ls) else Inr (raw, ls)))"

definition nao :: string where
  "nao = ''n'' @ [CHR 0xC3, CHR 0xA3] @ ''o''"

fun prompt_yes_no :: "bool \<Rightarrow> bool prompt" where
  "prompt_yes_no default_yes [] = Inl EOFError"
| "prompt_yes_no default_yes (l # ls) =
     (let raw = lower (strip l) in
      if raw = [] then Inr (default_yes, ls)
      else if raw \<in> set [''s'', ''sim'', ''y'', ''yes''] then Inr (True, ls)
      else if raw \<in> set [''n'', ''nao'', nao, ''no''] then Inr (False, ls)
      else prompt_yes_no default_yes ls)"

section \<open>The configuration collector\<close>

text \<open>\<open>cfg[k] = v\<close> on the dict at address c.\<close>

definition dict_set :: "addr \<Rightarrow> string \<Rightarrow> pyval \<Rightarrow> world \<Rightarrow> world" where
  "dict_set c k v w =
     (case obj_at w c of
        Some (ODict m) \<Rightarrow> w\<lparr>store := (store w)[c := ODict (m(k \<mapsto> v))]\<rparr>
      | _ \<Rightarrow> w)"

text \<open>The swap \<open>if cfg[a] > cfg[b]: cfg[a], cfg[b] = cfg[b], cfg[a]\<close>, on the two values.\<close>

definition swap_if_gt :: "pyval \<Rightarrow> pyval \<Rightarrow> pyval \<times> pyval" where
  "swap_if_gt a b = (if num_gt a b then (b, a) else (a, b))"

text \<open>
  \<open>get_column_config\<close> returns the address of the dict it has filled, the input left
  and the new state.  The source stores the two bounds as they are read and swaps them in
  the dict afterwards; here they are swapped first and stored once, which leaves the
  same dict.
\<close>

definition get_column_config :: "env \<Rightarrow> string \<Rightarrow> string list \<Rightarrow> world \<Rightarrow> py_error + (addr \<times> string list \<times> world)" where
  "get_column_config E col_type_code inp w =
     (case alloc (ODict Map.empty) w of (cfg, w0) \<Rightarrow>
      if col_type_code = ''int'' then
        bnd (prompt_int None None (Some 0) inp) (\<lambda>(mn, i1).
        bnd (prompt_int None None (Some 100) i1) (\<lambda>(mx, i2).
        (case swap_if_gt (VInt mn) (VInt mx) of (lo, hi) \<Rightarrow>
           Inr (cfg, i2, dict_set cfg ''max'' hi (dict_set cfg ''min'' lo w0)))))
      else if col_type_code = ''float'' then
        bnd (prompt_float E (Some (Fin 0)) inp) (\<lambda>(mn, i1).
        bnd (prompt_float E (Some (Fin 100)) i1) (\<lambda>(mx, i2).
        bnd (prompt_int (Some 0) (Some 10) (Some 2) i2) (\<lambda>(dec, i3).
        (case swap_if_gt (VFloat mn) (VFloat mx) of (lo, hi) \<Rightarrow>
           Inr (cfg, i3, dict_set cfg ''max'' hi (dict_set cfg ''min'' lo
                  (dict_set cfg ''decimals'' (VInt dec) w0)))))))
      else if col_type_code = ''date'' then
        bnd (prompt_int None None (Some 2015) inp) (\<lambda>(ys, i1).
        bnd (prompt_int None None (Some (now_year E)) i1) (\<lambda>(ye, i2).
        (case swap_if_gt (VInt ys) (VInt ye) of (lo, hi) \<Rightarrow>
           Inr (cfg, i2, dict_set cfg ''year_end'' hi (dict_set cfg ''year_start'' lo w0)))))
      else if col_type_code = ''datetime'' then
        bnd (prompt_int None None (Some 2015) inp) (\<lambda>(ys, i1).
        bnd (prompt_int None None (Some (now_year E)) i1) (\<lambda>(ye, i2).
        (case swap_if_gt (VInt ys) (VInt ye) of (lo, hi) \<Rightarrow>
           Inr (cfg, i2, dict_set cfg ''year_end'' hi (dict_set cfg ''year_start'' lo w0)))))
      else if col_type_code = ''picklist'' then
        bnd (prompt_str (Some ''A,B,C'') inp) (\<lambda>(opts, i1).
        (case alloc (OList (filter (\<lambda>t. t \<noteq> []) (map strip (split_comma opts)))) w0 of
           (options, w1) \<Rightarrow> Inr (cfg, i1, dict_set cfg ''options'' (VList options) w1)))
      else if col_type_code = ''price'' then
        bnd (prompt_float E (Some (Fin 10)) inp) (\<lambda>(mn, i1).
        bnd (prompt_float E (Some (Fin 1000)) i1) (\<lambda>(mx, i2).
        bnd (prompt_int (Some 0) (Some 4) (Some 2) i2) (\<lambda>(dec, i3).
        (case swap_if_gt (VFloat mn) (VFloat mx) of (lo, hi) \<Rightarrow>
           Inr (cfg, i3, dict_set cfg ''max'' hi (dict_set cfg ''min'' lo
                  (dict_set cfg ''decimals'' (VInt dec) w0)))))))
      else Inr (cfg, inp, w0))"

section \<open>The generator factory\<close>

text \<open>\<open>cfg.get(k, default)\<close> on the dict at address cfg.\<close>

definition dict_get :: "world \<Rightarrow> addr \<Rightarrow> string \<Rightarrow> pyval \<Rightarrow> py_error + pyval" where
  "dict_get w cfg k dflt =
     (case obj_at w cfg of
        Some (ODict m) \<Rightarrow> Inr (case m k of Some v \<Rightarrow> v | None \<Rightarrow> dflt)
      | _ \<Rightarrow> Inl AttributeError)"

text \<open>
  \<open>random.choice(options)\<close> on a configuration value: the list object is read from
  the store when the generator is called.
\<close>

definition choice_of :: "pyval \<Rightarrow> string action" where
  "choice_of options w =
     (case options of
        VList a \<Rightarrow> (case obj_at w a of Some (OList xs) \<Rightarrow> choice xs w | _ \<Rightarrow> Inl TypeError)
      | _ \<Rightarrow> Inl TypeError)"

text \<open>
  \<open>build_generator\<close> returns the closure and the state: the picklist branch allocates
  the list of its default before it looks the key up.
\<close>

definition build_generator :: "env \<Rightarrow> string \<Rightarrow> addr \<Rightarrow> world \<Rightarrow> py_error + (string action \<times> world)" where
  "build_generator E col_type_code cfg w =
     (if col_type_code = ''full_name'' then Inr (\<lambda>s. rand_full_name E s, w)
      else if col_type_code = ''first_name'' then Inr (\<lambda>s. rand_first_name E s, w)
      else if col_type_code = ''last_name'' then Inr (\<lambda>s. rand_last_name E s, w)
      else if col_type_code = ''email'' then Inr (\<lambda>s. rand_email E s, w)
      else if col_type_code = ''phone'' then Inr (\<lambda>s. rand_phone s, w)
      else if col_type_code = ''cpf'' then Inr (\<lambda>s. rand_cpf True s, w)
      else if col_type_code = ''address'' then Inr (\<lambda>s. rand_address E s, w)
      else if col_type_code = ''city'' then Inr (\<lambda>s. rand_city E s, w)
      else if col_type_code = ''state'' then Inr (\<lambda>s. rand_state E s, w)
      else if col_type_code = ''cep'' then Inr (\<lambda>s. rand_cep True s, w)
      else if col_type_code = ''date'' then
        bnd (dict_get w cfg ''year_start'' (VInt 2015)) (\<lambda>ys.
        bnd (dict_get w cfg ''year_end'' (VInt (now_year E))) (\<lambda>ye.
        Inr (\<lambda>s. rand_date E ys ye s, w)))
      else if col_type_code = ''datetime'' then
        bnd (dict_get w cfg ''year_start'' (VInt 2015)) (\<lambda>ys.
        bnd (dict_get w cfg ''year_end'' (VInt (now_year E))) (\<lambda>ye.
        Inr (\<lambda>s. rand_datetime E ys ye s, w)))
      else if col_type_code = ''int'' then
        bnd (dict_get w cfg ''min'' (VInt 0)) (\<lambda>mn.
        bnd (dict_get w cfg ''max'' (VInt 100)) (\<lambda>mx.
        Inr (\<lambda>s. bnd (rand_int mn mx s) (\<lambda>(v, s'). Inr (str_int v, s')), w)))
      else if col_type_code = ''float'' then
        bnd (dict_get w cfg ''min'' (VFloat (Fin 0))) (\<lambda>mn.
        bnd (dict_get w cfg ''max'' (VFloat (Fin 100))) (\<lambda>mx.
        bnd (dict_get w cfg ''decimals'' (VInt 2)) (\<lambda>dec.
        Inr (\<lambda>s. bnd (rand_float E mn mx dec s) (\<lambda>(x, s').
                  bnd (format_spec_f x dec) (\<lambda>r. Inr (r, s'))), w))))
      else if col_type_code = ''bool'' then
        Inr (\<lambda>s. bnd (rand_bool s) (\<lambda>(b, s'). Inr (if b then ''true'' else ''false'', s')), w)
      else if col_type_code = ''uuid'' then Inr (\<lambda>s. rand_uuid s, w)
      else if col_type_code = ''company'' then Inr (\<lambda>s. rand_company E s, w)
      else if col_type_code = ''job'' then Inr (\<lambda>s. rand_job E s, w)
      else if col_type_code = ''url'' then Inr (\<lambda>s. rand_url E s, w)
      else if col_type_code = ''sentence'' then Inr (\<lambda>s. rand_sentence 4 12 s, w)
      else if col_type_code = ''picklist'' then
        (case alloc (OList [''A'', ''B'', ''C'']) w of (abc, w1) \<Rightarrow>
           bnd (dict_get w1 cfg ''options'' (VList abc)) (\<lambda>options.
           Inr (\<lambda>s. choice_of options s, w1)))
      else if col_type_code = ''price'' then
        bnd (dict_get w cfg ''min'' (VFloat (Fin 10))) (\<lambda>mn.
        bnd (dict_get w cfg ''max'' (VFloat (Fin 1000))) (\<lambda>mx.
        bnd (dict_get w cfg ''decimals'' (VInt 2)) (\<lambda>dec.
        Inr (\<lambda>s. bnd (rand_float E mn mx dec s) (\<lambda>(x, s').
                  bnd (format_spec_f x dec) (\<lambda>r. Inr (r, s'))), w))))
      else Inr (\<lambda>s. rand_uuid s, w))"

section \<open>The main program\<close>

text \<open>
  \<open>csv.writer(f, delimiter=",").writerow(row)\<close>: a field with a comma, a quote, a
  carriage return or a line feed is quoted, its quotes doubled; a row that is one empty
  field is written as two quotes; the line ends with CR LF.
\<close>

definition csv_special :: "char \<Rightarrow> bool" where
  "csv_special c = (c = CHR '','' \<or> c = CHR 0x22 \<or> c = CHR 0x0D \<or> c = CHR 0x0A)"

definition csv_field :: "string \<Rightarrow> string" where
  "csv_field s =
     (if list_ex csv_special s
      then [CHR 0x22] @ replace_char (CHR 0x22) [CHR 0x22, CHR 0x22] s @ [CHR 0x22]
      else s)"

definition csv_writerow :: "string list \<Rightarrow> string" where
  "csv_writerow row =
     (if row = [[]] then [CHR 0x22, CHR 0x22] else join '','' (map csv_field row))
     @ [CHR 0x0D, CHR 0x0A]"

text \<open>The loop over the columns of \<open>main\<close>, for the n columns still to configure.\<close>

fun build_columns :: "env \<Rightarrow> nat \<Rightarrow> string list \<Rightarrow> world
    \<Rightarrow> py_error + ((string \<times> string action) list \<times> string list \<times> world)" where
  "build_columns E 0 inp w = Inr ([], inp, w)"
| "build_columns E (Suc n) inp w =
     bnd (prompt_int (Some 1) (Some (int (length COLUMN_TYPES))) (Some 1) inp) (\<lambda>(idx, i1).
     (let col_type = COLUMN_TYPES ! nat (idx - 1) in
      bnd (prompt_str (Some (label col_type)) i1) (\<lambda>(col_name, i2).
      bnd (if needs_config col_type then get_column_config E (code col_type) i2 w
           else (case alloc (ODict Map.empty) w of (cfg, w') \<Rightarrow> Inr (cfg, i2, w')))
        (\<lambda>(cfg, i3, w1).
      bnd (build_generator E (code col_type) cfg w1) (\<lambda>(gen_fn, w2).
      bnd (build_columns E n i3 w2) (\<lambda>(columns, i4, w3).
      Inr ((col_name, gen_fn) # columns, i4, w3)))))))"

text \<open>One row: \<open>[gen() for (_, gen) in columns]\<close>.\<close>

fun gen_row :: "string action list \<Rightarrow> string list action" where
  "gen_row [] w = Inr ([], w)"
| "gen_row (gen # gens) w =
     bnd (gen w) (\<lambda>(v, w1).
     bnd (gen_row gens w1) (\<lambda>(vs, w2).
     Inr (v # vs, w2)))"

fun gen_rows :: "string action list \<Rightarrow> nat \<Rightarrow> string list list action" where
  "gen_rows gens 0 w = Inr ([], w)"
| "gen_rows gens (Suc n) w =
     bnd (gen_row gens w) (\<lambda>(row, w1).
     bnd (gen_rows gens n w1) (\<lambda>(rows, w2).
     Inr (row # rows, w2)))"

text \<open>\<open>random.seed(seed)\<close> and, with Faker, \<open>_FAKE.seed_instance(seed)\<close>.\<close>

definition apply_seed :: "env \<Rightarrow> int \<Rightarrow> world \<Rightarrow> world" where
  "apply_seed E seed w =
     (let w1 = w\<lparr>rnd := seed_stream E seed, rpos := 0\<rparr>
      in if FAKE E \<noteq> None then w1\<lparr>frnd := fake_seed_stream E seed, fpos := 0\<rparr> else w1)"

text \<open>
  \<open>main\<close> returns the name of the file written and its bytes.  An exception leaves
  \<open>main\<close> (only KeyboardInterrupt is caught around it), and the result is the exception.
\<close>

definition main :: "env \<Rightarrow> string list \<Rightarrow> world \<Rightarrow> py_error + ((string \<times> string) \<times> string list \<times> world)" where
  "main E inp w =
     bnd (prompt_yes_no False inp) (\<lambda>(fix_seed, i1).
     bnd (if fix_seed
          then bnd (prompt_int None None (Some 42) i1) (\<lambda>(seed, i2). Inr (i2, apply_seed E seed w))
          else Inr (i1, w)) (\<lambda>(i2, w1).
     bnd (prompt_int (Some 1) (Some 200) (Some 5) i2) (\<lambda>(num_cols, i3).
     bnd (build_columns E (nat num_cols) i3 w1) (\<lambda>(columns, i4, w2).
     bnd (prompt_int (Some 1) (Some 10000000) (Some 1000) i4) (\<lambda>(num_rows, i5).
     bnd (prompt_str (Some ''dados_aleatorios.csv'') i5) (\<lambda>(out_name, i6).
     if \<not> can_open E out_name then Inl OSError
     else
       bnd (gen_rows (map snd columns) (nat num_rows) w2) (\<lambda>(rows, w3).
       Inr ((out_name, concat (map csv_writerow (map fst columns # rows))), i6, w3))))))))"

section \<open>Notions the properties are stated with\<close>

text \<open>
  The check digit as the specification words it: weight the digits by the descending
  integers from \<open>len + 1\<close> down to 2, sum, reduce modulo 11; 0 if the remainder is
  below 2, else 11 minus the remainder.
\<close>

definition spec_dv :: "int list \<Rightarrow> int" where
  "spec_dv s =
     (let r = (\<Sum>i<length s. s ! i * (int (length s) + 1 - int i)) mod 11
      in if r < 2 then 0 else 11 - r)"

text \<open>The decimal digits that occur in a string, in order.\<close>

definition string_digits :: "string \<Rightarrow> int list" where
  "string_digits s = map digit_val (filter is_digit s)"


text \<open>What a generator returns, without the state it leaves: the string or the exception.\<close>

definition outp :: "py_error + ('a \<times> world) \<Rightarrow> py_error + 'a" where
  "outp r = map_sum id fst r"



text \<open>
  The per-key defaults as the specification lists them, for the types whose configuration
  holds numbers.
\<close>

definition spec_defaults :: "env \<Rightarrow> string \<Rightarrow> (string \<rightharpoonup> pyval)" where
  "spec_defaults E c =
     (if c = ''int'' then [''min'' \<mapsto> VInt 0, ''max'' \<mapsto> VInt 100]
      else if c = ''float'' then
        [''min'' \<mapsto> VFloat (Fin 0), ''max'' \<mapsto> VFloat (Fin 100), ''decimals'' \<mapsto> VInt 2]
      else if c = ''date'' \<or> c = ''datetime'' then
        [''year_start'' \<mapsto> VInt 2015, ''year_end'' \<mapsto> VInt (now_year E)]
      else if c = ''price'' then
        [''min'' \<mapsto> VFloat (Fin 10), ''max'' \<mapsto> VFloat (Fin 1000), ''decimals'' \<mapsto> VInt 2]
      else Map.empty)"

text \<open>
  Fixed-point notation with d digits after the point: an optional minus sign, at least
  one digit, and then, unless d is 0, a point and exactly d digits.  \<open>fixed_value\<close> is the
  number such a string denotes; \<open>render_fixed\<close> writes the number k / 10^d that way.
\<close>

definition unsigned_part :: "string \<Rightarrow> string" where
  "unsigned_part s = (if s \<noteq> [] \<and> hd s = CHR ''-'' then tl s else s)"

definition fixed_point :: "nat \<Rightarrow> string \<Rightarrow> bool" where
  "fixed_point d s =
     (let t = unsigned_part s in
      takeWhile is_digit t \<noteq> [] \<and>
      (case dropWhile is_digit t of
         [] \<Rightarrow> d = 0
       | c # fr \<Rightarrow> c = CHR ''.'' \<and> d \<noteq> 0 \<and> length fr = d \<and> list_all is_digit fr))"

definition fixed_value :: "string \<Rightarrow> rat" where
  "fixed_value s =
     (let t = unsigned_part s;
          fr = drop 1 (dropWhile is_digit t);
          m = of_int (int_of_digits (takeWhile is_digit t))
                + of_int (int_of_digits fr) / 10 ^ length fr
      in if t = s then m else - m)"

definition render_fixed :: "bool \<Rightarrow> nat \<Rightarrow> nat \<Rightarrow> string" where
  "render_fixed neg k d =
     (if neg then ''-'' else '''') @ str_nat (k div 10 ^ d) @
     (if d = 0 then '''' else ''.'' @ zero_pad d (int (k mod 10 ^ d)))"

text \<open>
  A finite float, and a value rounded to d decimal places, ties to even.
\<close>

definition is_finite :: "pyfloat \<Rightarrow> bool" where
  "is_finite x = (case x of Fin q \<Rightarrow> True | NegZero \<Rightarrow> True | _ \<Rightarrow> False)"

definition round_places :: "nat \<Rightarrow> rat \<Rightarrow> rat" where
  "round_places d v = of_int (round_half_even (v * 10 ^ d)) / 10 ^ d"

text \<open>
  What the range of \<open>rand_float\<close> asks of the float arithmetic of the runtime at the
  bounds lo and hi, and what IEEE 754 arithmetic gives, since it rounds each exact
  result monotonically: the difference \<open>hi - lo\<close> is not negative; adding \<open>0.0\<close> to lo
  does not go below lo; when the difference is finite, its product with a draw of
  \<open>random()\<close>, which is \<open>k / 2^53\<close> with \<open>k < 2^53\<close>, lies between \<open>0.0\<close> and the
  difference; and adding lo is monotone on finite floats.
\<close>

definition monotone_arith :: "env \<Rightarrow> pyfloat \<Rightarrow> pyfloat \<Rightarrow> bool" where
  "monotone_arith E lo hi =
     (fle (Fin 0) (float_sub E hi lo) \<and>
      fle lo (float_add E (Fin 0) lo) \<and>
      (is_finite (float_sub E hi lo) \<longrightarrow>
         (\<forall>k < 2 ^ 53.
            fle (Fin 0) (float_mul E (Fin (of_nat k / 2 ^ 53)) (float_sub E hi lo)) \<and>
            fle (float_mul E (Fin (of_nat k / 2 ^ 53)) (float_sub E hi lo)) (float_sub E hi lo))) \<and>
      (\<forall>p q. is_finite p \<and> is_finite q \<and> fle p q \<longrightarrow>
         fle (float_add E p lo) (float_add E q lo)))"

text \<open>
  A valid calendar date, the length of a year, and the shapes \<open>YYYY-MM-DD\<close> and
  \<open>HH:MM:SS\<close> with the date and the second of the day such strings denote.
\<close>

definition days_in_year :: "int \<Rightarrow> nat" where
  "days_in_year y = (if is_leap y then 366 else 365)"






text \<open>
  An action is independent of the store when running it in a state with another store
  gives the same result and leaves that other store in place.
\<close>

definition with_store :: "pyobj list \<Rightarrow> py_error + ('a \<times> world) \<Rightarrow> py_error + ('a \<times> world)" where
  "with_store st r = map_sum id (\<lambda>(x, s). (x, s\<lparr>store := st\<rparr>)) r"

definition store_free :: "'a action \<Rightarrow> bool" where
  "store_free f = (\<forall>s st. f (s\<lparr>store := st\<rparr>) = with_store st (f s))"

section \<open>Concrete inputs\<close>

text \<open>
  The exact results of negation, addition, subtraction and multiplication, with the
  special values as IEEE 754 has them.  They are not the float operations, which round
  and overflow: they stand for them in the examples, whose operands have an exact result
  that is a float.
\<close>

definition fneg :: "pyfloat \<Rightarrow> pyfloat" where
  "fneg x = (case x of
      Fin q \<Rightarrow> if q = 0 then NegZero else Fin (- q)
    | NegZero \<Rightarrow> Fin 0
    | PInf \<Rightarrow> NInf
    | NInf \<Rightarrow> PInf
    | NaN \<Rightarrow> NaN)"

definition exact_add :: "pyfloat \<Rightarrow> pyfloat \<Rightarrow> pyfloat" where
  "exact_add a b =
     (if is_nan a \<or> is_nan b then NaN
      else if is_inf a \<and> is_inf b then (if a = b then a else NaN)
      else if is_inf a then a
      else if is_inf b then b
      else if a = NegZero \<and> b = NegZero then NegZero
      else Fin (fin_val a + fin_val b))"

definition exact_sub :: "pyfloat \<Rightarrow> pyfloat \<Rightarrow> pyfloat" where
  "exact_sub a b = exact_add a (fneg b)"

definition exact_mul :: "pyfloat \<Rightarrow> pyfloat \<Rightarrow> pyfloat" where
  "exact_mul a b =
     (if is_nan a \<or> is_nan b then NaN
      else if (is_inf a \<and> is_zero b) \<or> (is_zero a \<and> is_inf b) then NaN
      else if is_inf a \<or> is_inf b then (if sign_bit a \<noteq> sign_bit b then NInf else PInf)
      else if fin_val a * fin_val b = 0 then (if sign_bit a \<noteq> sign_bit b then NegZero else Fin 0)
      else Fin (fin_val a * fin_val b))"

text \<open>
  A run without Faker in the year 2026, on a platform that does not pad \<open>%Y\<close>.
  \<open>ex_float_of_str\<close> is \<open>float()\<close> on the strings the examples type: \<open>nan\<close>, two decimal
  fractions and the strings of digits.
\<close>

definition ex_float_of_str :: "string \<Rightarrow> pyfloat option" where
  "ex_float_of_str s =
     (if s = ''nan'' then Some NaN
      else if s = ''0.001'' then Some (Fin (1 / 1000))
      else if s = ''0.004'' then Some (Fin (4 / 1000))
      else if isdigit s then Some (Fin (of_int (int_of_digits s)))
      else None)"

definition ex_env :: env where
  "ex_env = \<lparr>FAKE = None, float_of_str = ex_float_of_str,
     float_sub = exact_sub, float_mul = exact_mul, float_add = exact_add, small_year = str_int,
     now_year = 2026,
     seed_stream = (\<lambda>seed i. nat \<bar>seed\<bar> + i), fake_seed_stream = (\<lambda>seed i. i),
     can_open = (\<lambda>name. True)\<rparr>"

definition ex_world :: world where
  "ex_world = \<lparr>rnd = (\<lambda>i. 7 * i + 3), rpos = 0, urnd = (\<lambda>i. i), upos = 0,
     frnd = (\<lambda>i. i), fpos = 0, store = []\<rparr>"

section \<open>Basic facts\<close>

lemma bnd_Inl [simp]: "bnd (Inl e) f = Inl e"
  by (simp add: bnd_def)

lemma bnd_Inr [simp]: "bnd (Inr x) f = f x"
  by (simp add: bnd_def)

lemma randint_offset:
  assumes "a \<le> b"
  shows "a \<le> a + int (r mod nat (b - a + 1))" and "a + int (r mod nat (b - a + 1)) \<le> b"
proof -
  have pos: "0 < nat (b - a + 1)" using assms by simp
  have "r mod nat (b - a + 1) < nat (b - a + 1)" using pos by (rule mod_less_divisor)
  then have "int (r mod nat (b - a + 1)) < b - a + 1" using assms by linarith
  then show "a + int (r mod nat (b - a + 1)) \<le> b" by linarith
  show "a \<le> a + int (r mod nat (b - a + 1))" by simp
qed

lemma randint_ok:
  "a \<le> b \<Longrightarrow> \<exists>v. randint a b w = Inr (v, w\<lparr>rpos := Suc (rpos w)\<rparr>) \<and> a \<le> v \<and> v \<le> b"
  using randint_offset [of a b "rnd w (rpos w)"] by (simp add: randint_def draw_def)

lemma rand_digits_ok:
  "\<exists>ds. rand_digits n w = Inr (ds, w\<lparr>rpos := rpos w + n\<rparr>) \<and> length ds = n
     \<and> (\<forall>d\<in>set ds. 0 \<le> d \<and> d \<le> 9)"
proof (induction n arbitrary: w)
  case 0
  then show ?case by simp
next
  case (Suc n)
  let ?w1 = "w\<lparr>rpos := Suc (rpos w)\<rparr>"
  obtain v where v: "randint 0 9 w = Inr (v, ?w1)" "0 \<le> v" "v \<le> 9"
    using randint_ok [of 0 9 w] by auto
  obtain ds where ds: "rand_digits n ?w1 = Inr (ds, ?w1\<lparr>rpos := rpos ?w1 + n\<rparr>)"
     "length ds = n" "\<forall>d\<in>set ds. 0 \<le> d \<and> d \<le> 9"
    using Suc.IH [of ?w1] by auto
  show ?case using v ds by simp
qed

lemma str_int_digit: "0 \<le> d \<Longrightarrow> d \<le> 9 \<Longrightarrow> str_int d = [digit_char (nat d)]"
  by (simp add: str_int_def str_nat.simps)

lemma is_digit_digit_char: "n \<le> 9 \<Longrightarrow> is_digit (digit_char n)"
  by (simp add: is_digit_def digit_char_def)

lemma digit_val_digit_char: "n \<le> 9 \<Longrightarrow> digit_val (digit_char n) = int n"
  by (simp add: digit_val_def digit_char_def)

lemma int_of_digits_snoc: "int_of_digits (s @ [c]) = 10 * int_of_digits s + digit_val c"
  by (simp add: int_of_digits_def)

lemma str_nat_digits: "list_all is_digit (str_nat n) \<and> str_nat n \<noteq> []"
proof (induction n rule: str_nat.induct)
  case (1 n)
  show ?case
  proof (cases "n < 10")
    case True
    then show ?thesis by (simp add: str_nat.simps [of n] is_digit_digit_char)
  next
    case False
    then show ?thesis using 1 by (simp add: str_nat.simps [of n] is_digit_digit_char)
  qed
qed


lemma int_of_digits_str_nat: "int_of_digits (str_nat n) = int n"
proof (induction n rule: str_nat.induct)
  case (1 n)
  show ?case
  proof (cases "n < 10")
    case True
    then show ?thesis by (simp add: str_nat.simps [of n] int_of_digits_def digit_val_digit_char)
  next
    case False
    then have "int_of_digits (str_nat (n div 10)) = int (n div 10)" using 1 by simp
    then show ?thesis using False
      by (simp add: str_nat.simps [of n] int_of_digits_snoc digit_val_digit_char zdiv_int zmod_int)
  qed
qed

lemma str_nat_hd_not_minus: "hd (str_nat n) \<noteq> CHR ''-''"
proof -
  have "is_digit (hd (str_nat n))" using str_nat_digits [of n] by (cases "str_nat n") simp_all
  then show ?thesis by (auto simp: is_digit_def)
qed


section \<open>The check digits of a generated CPF\<close>

lemma peso_sum:
  "sum_list (map (\<lambda>(d, p). d * p) (zip digs (peso (length digs))))
   = (\<Sum>i<length digs. digs ! i * (int (length digs) + 1 - int i))"
proof (induction digs)
  case Nil
  then show ?case by simp
next
  case (Cons a digs)
  show ?case
    by (simp del: sum.lessThan_Suc add: Cons.IH sum.lessThan_Suc_shift algebra_simps)
qed

lemma cpf_dv_spec: "cpf_dv digs = spec_dv digs"
  by (simp add: cpf_dv_def spec_dv_def peso_sum)

lemma cpf_dv_range: "0 \<le> cpf_dv digs \<and> cpf_dv digs \<le> 9"
  unfolding cpf_dv_def Let_def
  by (simp; presburger)

lemma string_digits_simps:
  "string_digits [] = []"
  "0 \<le> d \<Longrightarrow> d \<le> 9 \<Longrightarrow> string_digits (digit_char (nat d) # s) = d # string_digits s"
  "string_digits (CHR ''.'' # s) = string_digits s"
  "string_digits (CHR ''-'' # s) = string_digits s"
  by (simp_all add: string_digits_def is_digit_digit_char digit_val_digit_char)
     (simp_all add: is_digit_def)

lemma list9:
  assumes "length xs = 9"
  obtains b0 b1 b2 b3 b4 b5 b6 b7 b8 where "xs = [b0, b1, b2, b3, b4, b5, b6, b7, b8]"
  using assms by (auto simp: eval_nat_numeral length_Suc_conv)

lemma cpf_format_digits:
  assumes "length base = 9" and "\<forall>d\<in>set base. 0 \<le> d \<and> d \<le> 9"
    and "0 \<le> x" "x \<le> 9" "0 \<le> y" "y \<le> 9"
  shows "string_digits (cpf_format f (base @ [x, y])) = base @ [x, y]"
    and "length (cpf_format f (base @ [x, y])) = (if f then 14 else 11)"
proof -
  obtain b0 b1 b2 b3 b4 b5 b6 b7 b8 where b: "base = [b0, b1, b2, b3, b4, b5, b6, b7, b8]"
    using assms(1) by (rule list9)
  show "string_digits (cpf_format f (base @ [x, y])) = base @ [x, y]"
    using assms(2-) unfolding b
    by (simp add: cpf_format_def str_int_digit string_digits_simps)
  show "length (cpf_format f (base @ [x, y])) = (if f then 14 else 11)"
    using assms(2-) unfolding b
    by (simp add: cpf_format_def str_int_digit)
qed

text \<open>
  Claim C1.  Every call of \<open>rand_cpf\<close> returns (it never raises), after nine draws, a
  string with eleven decimal digits (grouped \<open>DDD.DDD.DDD-DD\<close> when formatting is
  requested) whose tenth digit is the modulo-11 check digit of the first nine and whose
  eleventh digit is the modulo-11 check digit of the first ten, the check digit being
  the one the specification describes (\<open>spec_dv\<close>).
\<close>

theorem rand_cpf_check_digits:
  "\<exists>s. rand_cpf formatado w = Inr (s, w\<lparr>rpos := rpos w + 9\<rparr>)
      \<and> length s = (if formatado then 14 else 11)
      \<and> length (string_digits s) = 11
      \<and> string_digits s ! 9 = spec_dv (take 9 (string_digits s))
      \<and> string_digits s ! 10 = spec_dv (take 10 (string_digits s))
      \<and> s = cpf_format formatado (string_digits s)"
proof -
  obtain base where base: "rand_digits 9 w = Inr (base, w\<lparr>rpos := rpos w + 9\<rparr>)"
    "length base = 9" "\<forall>d\<in>set base. 0 \<le> d \<and> d \<le> 9"
    using rand_digits_ok [of 9 w] by auto
  define x where "x = cpf_dv base"
  define y where "y = cpf_dv (base @ [x])"
  have xy: "0 \<le> x" "x \<le> 9" "0 \<le> y" "y \<le> 9"
    using cpf_dv_range [of base] cpf_dv_range [of "base @ [x]"] by (simp_all add: x_def y_def)
  have nums: "cpf_nums base = base @ [x, y]"
    by (simp add: cpf_nums_def Let_def x_def y_def)
  have run: "rand_cpf formatado w
      = Inr (cpf_format formatado (base @ [x, y]), w\<lparr>rpos := rpos w + 9\<rparr>)"
    by (simp add: rand_cpf_def base(1) nums)
  have ds: "string_digits (cpf_format formatado (base @ [x, y])) = base @ [x, y]"
    and len: "length (cpf_format formatado (base @ [x, y])) = (if formatado then 14 else 11)"
    using cpf_format_digits [OF base(2) base(3) xy] by simp_all
  have t9: "take 9 (base @ [x, y]) = base" and t10: "take 10 (base @ [x, y]) = base @ [x]"
    using base(2) by simp_all
  have n9: "(base @ [x, y]) ! 9 = x" and n10: "(base @ [x, y]) ! 10 = y"
    using base(2) by (simp_all add: nth_append)
  show ?thesis
    unfolding run
    by (simp only: ds t9 t10 n9 n10 len sum.inject prod.inject simp_thms ex_simps)
       (simp add: x_def y_def cpf_dv_spec base(2))
qed

section \<open>The integer column\<close>



section \<open>The UUID generator\<close>






















section \<open>The factory never fails\<close>


lemma obj_at_alloc:
  "obj_at w a = Some x \<Longrightarrow> obj_at (w\<lparr>store := store w @ [y]\<rparr>) a = Some x"
  by (auto simp add: obj_at_def nth_append split: if_splits)

lemma build_generator_returns:
  assumes "obj_at w cfg = Some (ODict m)"
  shows "\<exists>g w'. build_generator E c cfg w = Inr (g, w')"
  using assms obj_at_alloc [OF assms]
  by (simp add: build_generator_def dict_get_def alloc_def)





lemma dict_get_defaults:
  assumes "obj_at w cfg = Some (ODict m)" and "obj_at w' cfg' = Some (ODict (d ++ m))"
    and "d k = Some v"
  shows "dict_get w' cfg' k v = dict_get w cfg k v"
  using assms by (simp add: dict_get_def map_add_def split: option.splits)

lemma build_generator_fill:
  assumes "obj_at w cfg = Some (ODict m)"
    and "obj_at w' cfg' = Some (ODict (spec_defaults E c ++ m))"
    and "c \<noteq> ''picklist''"
  shows "map_sum id fst (build_generator E c cfg' w') = map_sum id fst (build_generator E c cfg w)"
proof -
  have g: "spec_defaults E c k = Some v \<Longrightarrow> dict_get w' cfg' k v = dict_get w cfg k v" for k v
    using dict_get_defaults [OF assms(1) assms(2)] .
  have r: "\<exists>x. dict_get w cfg k v = Inr x" for k v
    using assms(1) by (simp add: dict_get_def)
  consider "c = ''int''" | "c = ''float''" | "c = ''date''" | "c = ''datetime''" | "c = ''price''"
    | "c \<noteq> ''int'' \<and> c \<noteq> ''float'' \<and> c \<noteq> ''date'' \<and> c \<noteq> ''datetime'' \<and> c \<noteq> ''price''
       \<and> c \<noteq> ''picklist''"
    using assms(3) by argo
  then show ?thesis
  proof cases
    case 1
    have "dict_get w' cfg' ''min'' (VInt 0) = dict_get w cfg ''min'' (VInt 0)"
      "dict_get w' cfg' ''max'' (VInt 100) = dict_get w cfg ''max'' (VInt 100)"
      using 1 by (auto intro!: g simp add: spec_defaults_def)
    moreover obtain a b where "dict_get w cfg ''min'' (VInt 0) = Inr a"
      "dict_get w cfg ''max'' (VInt 100) = Inr b"
      using r by metis
    ultimately show ?thesis using 1 by (simp add: build_generator_def)
  next
    case 2
    have "dict_get w' cfg' ''min'' (VFloat (Fin 0)) = dict_get w cfg ''min'' (VFloat (Fin 0))"
      "dict_get w' cfg' ''max'' (VFloat (Fin 100)) = dict_get w cfg ''max'' (VFloat (Fin 100))"
      "dict_get w' cfg' ''decimals'' (VInt 2) = dict_get w cfg ''decimals'' (VInt 2)"
      using 2 by (auto intro!: g simp add: spec_defaults_def)
    moreover obtain a b d where "dict_get w cfg ''min'' (VFloat (Fin 0)) = Inr a"
      "dict_get w cfg ''max'' (VFloat (Fin 100)) = Inr b"
      "dict_get w cfg ''decimals'' (VInt 2) = Inr d"
      using r by metis
    ultimately show ?thesis using 2 by (simp add: build_generator_def)
  next
    case 3
    have "dict_get w' cfg' ''year_start'' (VInt 2015) = dict_get w cfg ''year_start'' (VInt 2015)"
      "dict_get w' cfg' ''year_end'' (VInt (now_year E)) = dict_get w cfg ''year_end'' (VInt (now_year E))"
      using 3 by (auto intro!: g simp add: spec_defaults_def)
    moreover obtain a b where "dict_get w cfg ''year_start'' (VInt 2015) = Inr a"
      "dict_get w cfg ''year_end'' (VInt (now_year E)) = Inr b"
      using r by metis
    ultimately show ?thesis using 3 by (simp add: build_generator_def)
  next
    case 4
    have "dict_get w' cfg' ''year_start'' (VInt 2015) = dict_get w cfg ''year_start'' (VInt 2015)"
      "dict_get w' cfg' ''year_end'' (VInt (now_year E)) = dict_get w cfg ''year_end'' (VInt (now_year E))"
      using 4 by (auto intro!: g simp add: spec_defaults_def)
    moreover obtain a b where "dict_get w cfg ''year_start'' (VInt 2015) = Inr a"
      "dict_get w cfg ''year_end'' (VInt (now_year E)) = Inr b"
      using r by metis
    ultimately show ?thesis using 4 by (simp add: build_generator_def)
  next
    case 5
    have "dict_get w' cfg' ''min'' (VFloat (Fin 10)) = dict_get w cfg ''min'' (VFloat (Fin 10))"
      "dict_get w' cfg' ''max'' (VFloat (Fin 1000)) = dict_get w cfg ''max'' (VFloat (Fin 1000))"
      "dict_get w' cfg' ''decimals'' (VInt 2) = dict_get w cfg ''decimals'' (VInt 2)"
      using 5 by (auto intro!: g simp add: spec_defaults_def)
    moreover obtain a b d where "dict_get w cfg ''min'' (VFloat (Fin 10)) = Inr a"
      "dict_get w cfg ''max'' (VFloat (Fin 1000)) = Inr b"
      "dict_get w cfg ''decimals'' (VInt 2) = Inr d"
      using r by metis
    ultimately show ?thesis using 5 by (simp add: build_generator_def)
  next
    case 6
    then show ?thesis by (simp add: build_generator_def)
  qed
qed

lemma build_generator_picklist_default:
  assumes "obj_at w cfg = Some (ODict m)" and "m ''options'' = None"
  shows "build_generator E ''picklist'' cfg w
     = Inr (choice_of (VList (length (store w))), w\<lparr>store := store w @ [OList [''A'', ''B'', ''C'']]\<rparr>)"
  using assms obj_at_alloc [OF assms(1)]
  by (simp add: build_generator_def dict_get_def alloc_def)

lemma choice_of_list:
  "obj_at s a = Some (OList xs) \<Longrightarrow> choice_of (VList a) s = choice xs s"
  by (simp add: choice_of_def)

text \<open>
  Claim C10.  For every type code and every configuration dict, also the empty one,
  \<open>build_generator\<close> returns a generator.  A key that is missing is read as its default:
  the result is the one obtained from the dict completed with the defaults the
  specification lists (\<open>spec_defaults\<close>); for the picklist, a dict without \<open>options\<close>
  yields the generator that chooses from a new list A, B, C.
\<close>

theorem build_generator_defaults:
  assumes "obj_at w cfg = Some (ODict m)"
    and "obj_at w' cfg' = Some (ODict (spec_defaults E c ++ m))"
  shows "(\<exists>g w1. build_generator E c cfg w = Inr (g, w1))
     \<and> (c \<noteq> ''picklist'' \<longrightarrow>
          map_sum id fst (build_generator E c cfg w) = map_sum id fst (build_generator E c cfg' w'))
     \<and> (m ''options'' = None \<longrightarrow>
          build_generator E ''picklist'' cfg w
            = Inr (choice_of (VList (length (store w))),
                   w\<lparr>store := store w @ [OList [''A'', ''B'', ''C'']]\<rparr>)
          \<and> (\<forall>s. obj_at s (length (store w)) = Some (OList [''A'', ''B'', ''C'']) \<longrightarrow>
                 choice_of (VList (length (store w))) s = choice [''A'', ''B'', ''C''] s))"
  using build_generator_returns [OF assms(1)] build_generator_fill [OF assms]
    build_generator_picklist_default [OF assms(1)] choice_of_list
  by simp

theorem build_generator_defaults_witness:
  "obj_at (ex_world\<lparr>store := [ODict Map.empty]\<rparr>) 0 = Some (ODict Map.empty)
   \<and> obj_at (ex_world\<lparr>store := [ODict [''min'' \<mapsto> VInt 0, ''max'' \<mapsto> VInt 100]]\<rparr>) 0
       = Some (ODict (spec_defaults ex_env ''int'' ++ Map.empty))
   \<and> (\<exists>g w1. build_generator ex_env ''int'' 0 (ex_world\<lparr>store := [ODict Map.empty]\<rparr>) = Inr (g, w1))
   \<and> map_sum id fst (build_generator ex_env ''int'' 0 (ex_world\<lparr>store := [ODict Map.empty]\<rparr>))
       = map_sum id fst (build_generator ex_env ''int'' 0
           (ex_world\<lparr>store := [ODict [''min'' \<mapsto> VInt 0, ''max'' \<mapsto> VInt 100]]\<rparr>))
   \<and> build_generator ex_env ''picklist'' 0 (ex_world\<lparr>store := [ODict Map.empty]\<rparr>)
       = Inr (choice_of (VList 1),
              ex_world\<lparr>store := [ODict Map.empty, OList [''A'', ''B'', ''C'']]\<rparr>)
   \<and> choice_of (VList 1) (ex_world\<lparr>store := [ODict Map.empty, OList [''A'', ''B'', ''C'']]\<rparr>)
       = Inr (''A'', ex_world\<lparr>store := [ODict Map.empty, OList [''A'', ''B'', ''C'']], rpos := 1\<rparr>)"
proof -
  have d: "[''min'' \<mapsto> VInt 0, ''max'' \<mapsto> VInt 100] = spec_defaults ex_env ''int'' ++ Map.empty"
    by (simp add: spec_defaults_def)
  show ?thesis
    using build_generator_defaults
      [of "ex_world\<lparr>store := [ODict Map.empty]\<rparr>" 0 Map.empty
          "ex_world\<lparr>store := [ODict [''min'' \<mapsto> VInt 0, ''max'' \<mapsto> VInt 100]]\<rparr>" 0
          ex_env "''int''"]
    unfolding d
    by (simp add: obj_at_def choice_of_def choice_def draw_def ex_world_def)
qed

section \<open>A picklist whose options are all blank\<close>

lemma COLUMN_TYPES_nth_20:
  "COLUMN_TYPES ! 20 = \<lparr>code = ''picklist'',
     label = ''Lista de op'' @ [CHR 0xC3, CHR 0xA7, CHR 0xC3, CHR 0xB5] @ ''es (categorias)'',
     needs_config = True\<rparr>"
  by (simp add: COLUMN_TYPES_def mk_ColumnType_def)

lemma length_COLUMN_TYPES: "length COLUMN_TYPES = 22"
  by (simp add: COLUMN_TYPES_def)

lemma picklist_blank_options_main:
  "main ex_env [''n'', ''1'', ''21'', '''', '' , ,'', ''1'', ''''] ex_world = Inl IndexError"
proof -
  have s: "strip ''n'' = ''n''" "strip ''1'' = ''1''" "strip ''21'' = ''21''" "strip '''' = ''''"
    "strip '' , ,'' = '', ,''"
    by (simp_all add: strip_def is_space_def)
  have d: "isdigit ''1''" "isdigit ''21''" "int_of_digits ''1'' = 1" "int_of_digits ''21'' = 21"
    by (simp_all add: isdigit_def is_digit_def int_of_digits_def digit_val_def)
  have yn: "prompt_yes_no False (''n'' # ls) = Inr (False, ls)" for ls
    by (simp add: s lower_def lower_char_def nao_def Let_def)
  have p1: "prompt_int (Some 1) (Some 200) (Some 5) (''1'' # ls) = Inr (1, ls)" for ls
    by (simp add: s d Let_def)
  have p2: "prompt_int (Some 1) (Some 22) (Some 1) (''21'' # ls) = Inr (21, ls)" for ls
    by (simp add: s d Let_def)
  have p3: "prompt_int (Some 1) (Some 10000000) (Some 1000) (''1'' # ls) = Inr (1, ls)" for ls
    by (simp add: s d Let_def)
  have p4: "prompt_str (Some x) ('''' # ls) = Inr (x, ls)" for x ls
    by (simp add: prompt_str_def s)
  have co: "can_open ex_env x" for x
    by (simp add: ex_env_def)
  have cfgr: "get_column_config ex_env ''picklist'' ('' , ,'' # ls) ex_world
     = Inr (0, ls, ex_world\<lparr>store := [ODict [''options'' \<mapsto> VList (Suc 0)], OList []]\<rparr>)" for ls
    by (simp add: get_column_config_def alloc_def prompt_str_def strip_def is_space_def dict_set_def
      obj_at_def ex_world_def)
  have bg: "build_generator ex_env ''picklist'' 0
         (ex_world\<lparr>store := [ODict [''options'' \<mapsto> VList (Suc 0)], OList []]\<rparr>)
     = Inr (choice_of (VList (Suc 0)),
            ex_world\<lparr>store := [ODict [''options'' \<mapsto> VList (Suc 0)], OList [], OList [''A'', ''B'', ''C'']]\<rparr>)"
    by (simp add: alloc_def obj_at_def build_generator_def dict_get_def ex_world_def)
  have ch: "choice_of (VList (Suc 0))
         (ex_world\<lparr>store := [ODict [''options'' \<mapsto> VList (Suc 0)], OList [], OList [''A'', ''B'', ''C'']]\<rparr>)
     = Inl IndexError"
    by (simp add: obj_at_def choice_of_def choice_def ex_world_def)
  have cols: "build_columns ex_env (Suc 0) (''21'' # '''' # '' , ,'' # ls) ex_world
     = Inr ([(''Lista de op'' @ [CHR 0xC3, CHR 0xA7, CHR 0xC3, CHR 0xB5] @ ''es (categorias)'',
              choice_of (VList (Suc 0)))], ls,
            ex_world\<lparr>store := [ODict [''options'' \<mapsto> VList (Suc 0)], OList [], OList [''A'', ''B'', ''C'']]\<rparr>)" for ls
    by (simp del: prompt_int.simps add: p2 p4 length_COLUMN_TYPES COLUMN_TYPES_nth_20 cfgr bg)
  show ?thesis
    by (simp del: prompt_int.simps prompt_yes_no.simps build_columns.simps
          add: main_def yn p1 p3 p4 co cols [simplified] ch)
qed

text \<open>
  Claim C2.  The claim does not hold of the code.  When every token of the picklist
  line is blank, the collector stores an empty list of options; the factory builds the
  generator; the first call of the generator raises IndexError, and with it \<open>main\<close>
  ends without a file.
\<close>

theorem picklist_blank_options_raises:
  "get_column_config ex_env ''picklist'' ['' , ,''] ex_world
     = Inr (0, [], ex_world\<lparr>store := [ODict [''options'' \<mapsto> VList 1], OList []]\<rparr>)
   \<and> build_generator ex_env ''picklist'' 0
         (ex_world\<lparr>store := [ODict [''options'' \<mapsto> VList 1], OList []]\<rparr>)
     = Inr (choice_of (VList 1),
            ex_world\<lparr>store := [ODict [''options'' \<mapsto> VList 1], OList [], OList [''A'', ''B'', ''C'']]\<rparr>)
   \<and> choice_of (VList 1)
         (ex_world\<lparr>store := [ODict [''options'' \<mapsto> VList 1], OList [], OList [''A'', ''B'', ''C'']]\<rparr>)
     = Inl IndexError
   \<and> main ex_env [''n'', ''1'', ''21'', '''', '' , ,'', ''1'', ''''] ex_world = Inl IndexError"
  using picklist_blank_options_main
  by (simp add: get_column_config_def alloc_def prompt_str_def strip_def is_space_def dict_set_def
      obj_at_def build_generator_def dict_get_def choice_of_def choice_def ex_world_def)

section \<open>The bounds the collector returns\<close>

lemma obj_at_alloc_new: "obj_at (snd (alloc x w)) (fst (alloc x w)) = Some x"
  by (simp add: alloc_def obj_at_def)

lemma dict_set_dict:
  assumes "obj_at w c = Some (ODict m)"
  shows "dict_set c k v w = w\<lparr>store := (store w)[c := ODict (m(k \<mapsto> v))]\<rparr>"
    and "obj_at (dict_set c k v w) c = Some (ODict (m(k \<mapsto> v)))"
  using assms by (auto simp add: dict_set_def obj_at_def split: if_splits)

lemma swap_if_gt_int:
  "swap_if_gt (VInt a) (VInt b) = (VInt (min a b), VInt (max a b))"
  by (simp add: swap_if_gt_def num_gt_def min_def max_def)

lemma swap_if_gt_float:
  "swap_if_gt (VFloat x) (VFloat y) = (if fgt x y then (VFloat y, VFloat x) else (VFloat x, VFloat y))"
  by (simp add: swap_if_gt_def num_gt_def)

lemma fle_after_swap:
  assumes "\<not> is_nan x" "\<not> is_nan y"
  shows "if fgt x y then fle y x else fle x y"
  using assms by (auto simp add: fgt_def fle_def)

lemma collect_int:
  assumes "prompt_int None None (Some 0) inp = Inr (a, i1)"
    and "prompt_int None None (Some 100) i1 = Inr (b, i2)"
  shows "\<exists>w'. get_column_config E ''int'' inp w = Inr (length (store w), i2, w')
      \<and> obj_at w' (length (store w)) = Some (ODict [''min'' \<mapsto> VInt (min a b), ''max'' \<mapsto> VInt (max a b)])"
proof -
  let ?w0 = "w\<lparr>store := store w @ [ODict Map.empty]\<rparr>"
  let ?c = "length (store w)"
  have o: "obj_at ?w0 ?c = Some (ODict Map.empty)" by (simp add: obj_at_def)
  note o1 = dict_set_dict(2) [OF o, of "''min''" "VInt (min a b)"]
  note o2 = dict_set_dict(2) [OF o1, of "''max''" "VInt (max a b)"]
  have "get_column_config E ''int'' inp w
     = Inr (?c, i2, dict_set ?c ''max'' (VInt (max a b)) (dict_set ?c ''min'' (VInt (min a b)) ?w0))"
    by (simp add: get_column_config_def alloc_def assms swap_if_gt_int)
  then show ?thesis using o2 by simp
qed

lemma collect_years:
  assumes "c = ''date'' \<or> c = ''datetime''"
    and "prompt_int None None (Some 2015) inp = Inr (a, i1)"
    and "prompt_int None None (Some (now_year E)) i1 = Inr (b, i2)"
  shows "\<exists>w'. get_column_config E c inp w = Inr (length (store w), i2, w')
      \<and> obj_at w' (length (store w))
          = Some (ODict [''year_start'' \<mapsto> VInt (min a b), ''year_end'' \<mapsto> VInt (max a b)])"
proof -
  let ?w0 = "w\<lparr>store := store w @ [ODict Map.empty]\<rparr>"
  let ?c = "length (store w)"
  have o: "obj_at ?w0 ?c = Some (ODict Map.empty)" by (simp add: obj_at_def)
  note o1 = dict_set_dict(2) [OF o, of "''year_start''" "VInt (min a b)"]
  note o2 = dict_set_dict(2) [OF o1, of "''year_end''" "VInt (max a b)"]
  have "get_column_config E c inp w
     = Inr (?c, i2, dict_set ?c ''year_end'' (VInt (max a b))
                      (dict_set ?c ''year_start'' (VInt (min a b)) ?w0))"
  proof (cases "c = ''date''")
    case True
    then show ?thesis by (simp add: get_column_config_def alloc_def assms(2,3) swap_if_gt_int)
  next
    case False
    then have "c = ''datetime''" using assms(1) by simp
    then show ?thesis by (simp add: get_column_config_def alloc_def assms(2,3) swap_if_gt_int)
  qed
  then show ?thesis using o2 by simp
qed

lemma collect_float:
  assumes "c = ''float'' \<and> d0 = Fin 0 \<and> d1 = Fin 100 \<and> dmax = 10
         \<or> c = ''price'' \<and> d0 = Fin 10 \<and> d1 = Fin 1000 \<and> dmax = 4"
    and "prompt_float E (Some d0) inp = Inr (x, i1)"
    and "prompt_float E (Some d1) i1 = Inr (y, i2)"
    and "prompt_int (Some 0) (Some dmax) (Some 2) i2 = Inr (d, i3)"
  shows "\<exists>w' lo hi. get_column_config E c inp w = Inr (length (store w), i3, w')
      \<and> obj_at w' (length (store w))
          = Some (ODict [''decimals'' \<mapsto> VInt d, ''min'' \<mapsto> VFloat lo, ''max'' \<mapsto> VFloat hi])
      \<and> (lo = x \<and> hi = y \<or> lo = y \<and> hi = x)
      \<and> (\<not> is_nan x \<and> \<not> is_nan y \<longrightarrow> fle lo hi)"
proof -
  let ?w0 = "w\<lparr>store := store w @ [ODict Map.empty]\<rparr>"
  let ?c = "length (store w)"
  define lo where "lo = (if fgt x y then y else x)"
  define hi where "hi = (if fgt x y then x else y)"
  have sw: "swap_if_gt (VFloat x) (VFloat y) = (VFloat lo, VFloat hi)"
    by (simp add: swap_if_gt_float lo_def hi_def)
  have o: "obj_at ?w0 ?c = Some (ODict Map.empty)" by (simp add: obj_at_def)
  note o1 = dict_set_dict(2) [OF o, of "''decimals''" "VInt d"]
  note o2 = dict_set_dict(2) [OF o1, of "''min''" "VFloat lo"]
  note o3 = dict_set_dict(2) [OF o2, of "''max''" "VFloat hi"]
  let ?w' = "dict_set ?c ''max'' (VFloat hi) (dict_set ?c ''min'' (VFloat lo)
                      (dict_set ?c ''decimals'' (VInt d) ?w0))"
  have r: "get_column_config E c inp w
     = Inr (?c, i3, dict_set ?c ''max'' (VFloat hi) (dict_set ?c ''min'' (VFloat lo)
                      (dict_set ?c ''decimals'' (VInt d) ?w0)))"
  proof (cases "c = ''float''")
    case True
    then have "d0 = Fin 0 \<and> d1 = Fin 100 \<and> dmax = 10" using assms(1) by simp
    then show ?thesis using True assms(2-4)
      by (simp add: get_column_config_def alloc_def sw)
  next
    case False
    then have "c = ''price'' \<and> d0 = Fin 10 \<and> d1 = Fin 1000 \<and> dmax = 4" using assms(1) by simp
    then show ?thesis using assms(2-4)
      by (simp add: get_column_config_def alloc_def sw)
  qed
  have a: "lo = x \<and> hi = y \<or> lo = y \<and> hi = x" by (simp add: lo_def hi_def)
  have b: "\<not> is_nan x \<and> \<not> is_nan y \<longrightarrow> fle lo hi"
    using fle_after_swap [of x y] by (simp add: lo_def hi_def)
  show ?thesis
    by (rule exI [of _ ?w'], rule exI [of _ lo], rule exI [of _ hi]) (use r o3 a b in blast)
qed

text \<open>
  Claim C5, amended.  Once the prompts have returned the two bounds, the collector
  returns a configuration whose bounds are the two values in ascending order: for
  \<open>int\<close>, \<open>date\<close> and \<open>datetime\<close> the smaller and the larger of the two ints; for
  \<open>float\<close> and \<open>price\<close> the two floats, swapped when the first is greater, so that
  min \<le> max whenever neither of them is \<open>nan\<close>.
\<close>

theorem collector_bounds_ordered:
  "(prompt_int None None (Some 0) inp = Inr (a, i1) \<longrightarrow>
    prompt_int None None (Some 100) i1 = Inr (b, i2) \<longrightarrow>
      (\<exists>w'. get_column_config E ''int'' inp w = Inr (length (store w), i2, w')
         \<and> obj_at w' (length (store w))
             = Some (ODict [''min'' \<mapsto> VInt (min a b), ''max'' \<mapsto> VInt (max a b)])
         \<and> min a b \<le> max a b))
   \<and> ((c = ''date'' \<or> c = ''datetime'') \<longrightarrow>
      prompt_int None None (Some 2015) inp = Inr (ya, j1) \<longrightarrow>
      prompt_int None None (Some (now_year E)) j1 = Inr (yb, j2) \<longrightarrow>
      (\<exists>w'. get_column_config E c inp w = Inr (length (store w), j2, w')
         \<and> obj_at w' (length (store w))
             = Some (ODict [''year_start'' \<mapsto> VInt (min ya yb), ''year_end'' \<mapsto> VInt (max ya yb)])
         \<and> min ya yb \<le> max ya yb))
   \<and> ((f = ''float'' \<and> d0 = Fin 0 \<and> d1 = Fin 100 \<and> dmax = 10
        \<or> f = ''price'' \<and> d0 = Fin 10 \<and> d1 = Fin 1000 \<and> dmax = 4) \<longrightarrow>
      prompt_float E (Some d0) inp = Inr (x, k1) \<longrightarrow>
      prompt_float E (Some d1) k1 = Inr (y, k2) \<longrightarrow>
      prompt_int (Some 0) (Some dmax) (Some 2) k2 = Inr (d, k3) \<longrightarrow>
      (\<exists>w' lo hi. get_column_config E f inp w = Inr (length (store w), k3, w')
         \<and> obj_at w' (length (store w))
             = Some (ODict [''decimals'' \<mapsto> VInt d, ''min'' \<mapsto> VFloat lo, ''max'' \<mapsto> VFloat hi])
         \<and> (lo = x \<and> hi = y \<or> lo = y \<and> hi = x)
         \<and> (\<not> is_nan x \<and> \<not> is_nan y \<longrightarrow> fle lo hi)))"
proof (intro conjI impI)
  assume "prompt_int None None (Some 0) inp = Inr (a, i1)"
    and "prompt_int None None (Some 100) i1 = Inr (b, i2)"
  from collect_int [OF this, of E w]
  show "\<exists>w'. get_column_config E ''int'' inp w = Inr (length (store w), i2, w')
         \<and> obj_at w' (length (store w))
             = Some (ODict [''min'' \<mapsto> VInt (min a b), ''max'' \<mapsto> VInt (max a b)])
         \<and> min a b \<le> max a b"
    by auto
next
  assume "c = ''date'' \<or> c = ''datetime''"
    and "prompt_int None None (Some 2015) inp = Inr (ya, j1)"
    and "prompt_int None None (Some (now_year E)) j1 = Inr (yb, j2)"
  from collect_years [OF this, of w]
  show "\<exists>w'. get_column_config E c inp w = Inr (length (store w), j2, w')
         \<and> obj_at w' (length (store w))
             = Some (ODict [''year_start'' \<mapsto> VInt (min ya yb), ''year_end'' \<mapsto> VInt (max ya yb)])
         \<and> min ya yb \<le> max ya yb"
    by auto
next
  assume "f = ''float'' \<and> d0 = Fin 0 \<and> d1 = Fin 100 \<and> dmax = 10
        \<or> f = ''price'' \<and> d0 = Fin 10 \<and> d1 = Fin 1000 \<and> dmax = 4"
    and "prompt_float E (Some d0) inp = Inr (x, k1)"
    and "prompt_float E (Some d1) k1 = Inr (y, k2)"
    and "prompt_int (Some 0) (Some dmax) (Some 2) k2 = Inr (d, k3)"
  from collect_float [OF this, of w]
  show "\<exists>w' lo hi. get_column_config E f inp w = Inr (length (store w), k3, w')
         \<and> obj_at w' (length (store w))
             = Some (ODict [''decimals'' \<mapsto> VInt d, ''min'' \<mapsto> VFloat lo, ''max'' \<mapsto> VFloat hi])
         \<and> (lo = x \<and> hi = y \<or> lo = y \<and> hi = x)
         \<and> (\<not> is_nan x \<and> \<not> is_nan y \<longrightarrow> fle lo hi)" .
qed

lemma strip_examples:
  "strip ''65'' = ''65''" "strip ''18'' = ''18''" "strip ''0.004'' = ''0.004''"
  "strip ''0.001'' = ''0.001''" "strip '''' = ''''" "strip ''nan'' = ''nan''"
  "strip ''3'' = ''3''" "strip ''2030'' = ''2030''" "strip ''1999'' = ''1999''"
  by (simp_all add: strip_def is_space_def)

lemma digits_examples:
  "isdigit ''65''" "isdigit ''18''" "int_of_digits ''65'' = 65" "int_of_digits ''18'' = 18"
  "isdigit ''3''" "int_of_digits ''3'' = 3"
  "isdigit ''2030''" "int_of_digits ''2030'' = 2030"
  "isdigit ''1999''" "int_of_digits ''1999'' = 1999"
  by (simp_all add: isdigit_def is_digit_def int_of_digits_def digit_val_def)

lemma prompt_int_examples:
  "prompt_int None None dflt (''65'' # ls) = Inr (65, ls)"
  "prompt_int None None dflt (''18'' # ls) = Inr (18, ls)"
  "prompt_int None None dflt (''2030'' # ls) = Inr (2030, ls)"
  "prompt_int None None dflt (''1999'' # ls) = Inr (1999, ls)"
  "prompt_int (Some 0) (Some 10) (Some 2) (''3'' # ls) = Inr (3, ls)"
  "prompt_int (Some 0) (Some 10) (Some 2) ('''' # ls) = Inr (2, ls)"
  by (simp_all add: strip_examples digits_examples Let_def)

lemma prompt_float_examples:
  "prompt_float ex_env dflt (''0.004'' # ls) = Inr (Fin (4 / 1000), ls)"
  "prompt_float ex_env dflt (''0.001'' # ls) = Inr (Fin (1 / 1000), ls)"
  "prompt_float ex_env dflt (''nan'' # ls) = Inr (NaN, ls)"
  "prompt_float ex_env (Some z) ('''' # ls) = Inr (z, ls)"
  by (simp_all add: strip_examples replace_char_def ex_env_def ex_float_of_str_def Let_def)

text \<open>
  The claim as stated fails: the line \<open>nan\<close> is a float for \<open>prompt_float\<close>, the
  comparison \<open>nan > 100.0\<close> is false, nothing is swapped, and min \<le> max is false too.
\<close>

theorem collector_nan_counterexample:
  "get_column_config ex_env ''float'' [''nan'', '''', ''''] ex_world
     = Inr (0, [], ex_world\<lparr>store :=
         [ODict [''decimals'' \<mapsto> VInt 2, ''min'' \<mapsto> VFloat NaN, ''max'' \<mapsto> VFloat (Fin 100)]]\<rparr>)
   \<and> \<not> fle NaN (Fin 100)"
  by (simp del: prompt_int.simps prompt_float.simps
      add: get_column_config_def alloc_def prompt_int_examples prompt_float_examples
        swap_if_gt_float fgt_def fle_def is_nan_def dict_set_def obj_at_def ex_world_def)

theorem collector_bounds_ordered_witness:
  "(\<exists>w'. get_column_config ex_env ''int'' [''65'', ''18''] ex_world = Inr (0, [], w')
      \<and> obj_at w' 0 = Some (ODict [''min'' \<mapsto> VInt 18, ''max'' \<mapsto> VInt 65])
      \<and> (18 :: int) \<le> 65)
   \<and> (\<exists>w'. get_column_config ex_env ''date'' [''2030'', ''1999''] ex_world = Inr (0, [], w')
      \<and> obj_at w' 0 = Some (ODict [''year_start'' \<mapsto> VInt 1999, ''year_end'' \<mapsto> VInt 2030])
      \<and> (1999 :: int) \<le> 2030)
   \<and> (\<exists>w' lo hi. get_column_config ex_env ''float'' [''0.004'', ''0.001'', ''3''] ex_world
          = Inr (0, [], w')
      \<and> obj_at w' 0
          = Some (ODict [''decimals'' \<mapsto> VInt 3, ''min'' \<mapsto> VFloat lo, ''max'' \<mapsto> VFloat hi])
      \<and> (lo = Fin (4 / 1000) \<and> hi = Fin (1 / 1000) \<or> lo = Fin (1 / 1000) \<and> hi = Fin (4 / 1000))
      \<and> fle lo hi)"
  using collector_bounds_ordered
    [where inp = "[''65'', ''18'']" and a = 65 and ?i1.0 = "[''18'']" and b = 18 and ?i2.0 = "[]"
       and E = ex_env and w = ex_world and c = "''int''" and f = "''int''"]
    collector_bounds_ordered
    [where inp = "[''2030'', ''1999'']" and c = "''date''" and ya = 2030 and ?j1.0 = "[''1999'']"
       and yb = 1999 and ?j2.0 = "[]" and E = ex_env and w = ex_world and f = "''int''"]
    collector_bounds_ordered
    [where inp = "[''0.004'', ''0.001'', ''3'']" and f = "''float''" and ?d0.0 = "Fin 0"
       and ?d1.0 = "Fin 100" and dmax = 10 and x = "Fin (4 / 1000)" and ?k1.0 = "[''0.001'', ''3'']"
       and y = "Fin (1 / 1000)" and ?k2.0 = "[''3'']" and d = 3 and ?k3.0 = "[]"
       and E = ex_env and w = ex_world and c = "''int''"]
  by (simp del: prompt_int.simps prompt_float.simps
      add: prompt_int_examples prompt_float_examples is_nan_def ex_world_def)

section \<open>The float and price columns\<close>

lemma rhe_of_int: "round_half_even (of_int k) = k"
  by (simp add: round_half_even_def)

lemma rhe_bounds: "\<bar>of_int (round_half_even q) - q\<bar> \<le> 1 / 2"
proof -
  have "of_int \<lfloor>q\<rfloor> \<le> q" "q < of_int \<lfloor>q\<rfloor> + 1" by linarith+
  then show ?thesis
    unfolding round_half_even_def Let_def by (auto simp add: abs_le_iff)
qed

lemma rhe_ge_floor: "\<lfloor>q\<rfloor> \<le> round_half_even q" and rhe_le_ceil: "round_half_even q \<le> \<lfloor>q\<rfloor> + 1"
  by (simp_all add: round_half_even_def Let_def)

lemma rhe_mono:
  assumes "x \<le> y"
  shows "round_half_even x \<le> round_half_even y"
proof (cases "\<lfloor>x\<rfloor> = \<lfloor>y\<rfloor>")
  case True
  have "x - of_int \<lfloor>y\<rfloor> \<le> y - of_int \<lfloor>y\<rfloor>" using assms by simp
  then show ?thesis
    unfolding round_half_even_def Let_def True by auto
next
  case False
  then have "\<lfloor>x\<rfloor> < \<lfloor>y\<rfloor>" using assms floor_mono [of x y] by linarith
  then show ?thesis using rhe_le_ceil [of x] rhe_ge_floor [of y] by linarith
qed




lemma length_str_nat_le: "0 < d \<Longrightarrow> n < 10 ^ d \<Longrightarrow> length (str_nat n) \<le> d"
proof (induction n arbitrary: d rule: str_nat.induct)
  case (1 n)
  show ?case
  proof (cases "n < 10")
    case True
    then show ?thesis using "1.prems" by (simp add: str_nat.simps [of n])
  next
    case False
    then obtain e where e: "d = Suc e" using "1.prems" by (cases d) auto
    have "0 < e" using False "1.prems" e by (cases e) auto
    moreover have "n div 10 < 10 ^ e" using "1.prems" e by (simp add: less_mult_imp_div_less mult.commute)
    ultimately have "length (str_nat (n div 10)) \<le> e" using "1.IH" False by simp
    then show ?thesis using False e by (simp add: str_nat.simps [of n])
  qed
qed

lemma int_of_digits_zeros: "int_of_digits (replicate k CHR ''0'' @ s) = int_of_digits s"
proof -
  have z: "int_of_digits (replicate k CHR ''0'') = 0"
  proof (induction k)
    case 0
    then show ?case by (simp add: int_of_digits_def)
  next
    case (Suc k)
    have "replicate (Suc k) CHR ''0'' = replicate k CHR ''0'' @ [CHR ''0'']"
      by (simp add: replicate_append_same)
    then show ?case using Suc by (simp only: int_of_digits_snoc) (simp add: digit_val_def)
  qed
  then have "foldl (\<lambda>acc c. 10 * acc + digit_val c) 0 (replicate k CHR ''0'') = 0"
    by (simp add: int_of_digits_def)
  then show ?thesis by (simp add: int_of_digits_def)
qed

lemma int_of_digits_Nil: "int_of_digits [] = 0"
  by (simp add: int_of_digits_def)

lemma zero_pad_nat:
  assumes "0 < d" "j < 10 ^ d"
  shows "length (zero_pad d (int j)) = d" and "list_all is_digit (zero_pad d (int j))"
    and "int_of_digits (zero_pad d (int j)) = int j"
proof -
  have z: "zero_pad d (int j) = replicate (d - length (str_nat j)) CHR ''0'' @ str_nat j"
    by (simp add: zero_pad_def)
  have l: "length (str_nat j) \<le> d" using assms by (rule length_str_nat_le)
  show "length (zero_pad d (int j)) = d" using l by (simp add: z)
  show "list_all is_digit (zero_pad d (int j))"
    using str_nat_digits [of j] by (auto simp add: z list_all_iff is_digit_def)
  show "int_of_digits (zero_pad d (int j)) = int j"
    by (simp add: z int_of_digits_zeros int_of_digits_str_nat)
qed

lemma takeWhile_str_nat:
  "takeWhile is_digit (str_nat n) = str_nat n"
  "takeWhile is_digit (str_nat n @ CHR ''.'' # r) = str_nat n"
  "dropWhile is_digit (str_nat n) = []"
  "dropWhile is_digit (str_nat n @ CHR ''.'' # r) = CHR ''.'' # r"
proof -
  have a: "\<forall>c\<in>set (str_nat n). is_digit c" using str_nat_digits [of n] by (simp add: list_all_iff)
  have b: "\<not> is_digit CHR ''.''" by (simp add: is_digit_def)
  show "takeWhile is_digit (str_nat n) = str_nat n" using a by (simp add: takeWhile_eq_all_conv)
  show "takeWhile is_digit (str_nat n @ CHR ''.'' # r) = str_nat n"
    using a b by (simp add: takeWhile_append2)
  show "dropWhile is_digit (str_nat n) = []" using a by simp
  show "dropWhile is_digit (str_nat n @ CHR ''.'' # r) = CHR ''.'' # r"
    using a b by (simp add: dropWhile_append2)
qed


lemma unsigned_render: "unsigned_part (render_fixed neg k d) = render_fixed False k d"
proof -
  obtain c cs where "str_nat (k div 10 ^ d) = c # cs"
    using str_nat_digits [of "k div 10 ^ d"] by (cases "str_nat (k div 10 ^ d)") simp_all
  moreover have "c \<noteq> CHR ''-''" using str_nat_hd_not_minus [of "k div 10 ^ d"] calculation by simp
  ultimately show ?thesis by (simp add: unsigned_part_def render_fixed_def)
qed

lemma render_neg_differs: "render_fixed True k d \<noteq> render_fixed False k d"
  by (simp add: render_fixed_def)

lemma fixed_point_render: "fixed_point d (render_fixed neg k d)"
proof (cases "d = 0")
  case True
  then show ?thesis
    using str_nat_digits [of k]
    by (simp add: fixed_point_def unsigned_render Let_def) (simp add: render_fixed_def takeWhile_str_nat)
next
  case False
  then have m: "k mod 10 ^ d < 10 ^ d" "0 < d" by simp_all
  show ?thesis
    using False str_nat_digits [of "k div 10 ^ d"] zero_pad_nat(1,2) [OF m(2) m(1)]
    by (simp add: fixed_point_def unsigned_render Let_def) (simp add: render_fixed_def takeWhile_str_nat)
qed

lemma fixed_value_render:
  "fixed_value (render_fixed neg k d) = (if neg then - 1 else 1) * (of_nat k / 10 ^ d)"
proof -
  have v: "of_int (int_of_digits (takeWhile is_digit (render_fixed False k d)))
        + of_int (int_of_digits (drop 1 (dropWhile is_digit (render_fixed False k d))))
            / 10 ^ length (drop 1 (dropWhile is_digit (render_fixed False k d)))
      = (of_nat k / 10 ^ d :: rat)"
  proof (cases "d = 0")
    case True
    then show ?thesis
      by (simp add: render_fixed_def takeWhile_str_nat int_of_digits_str_nat int_of_digits_Nil)
  next
    case False
    then have m: "k mod 10 ^ d < 10 ^ d" "0 < d" by simp_all
    have "(of_nat (k div 10 ^ d) :: rat) + of_nat (k mod 10 ^ d) / 10 ^ d = of_nat k / 10 ^ d"
    proof -
      have "k = (k div 10 ^ d) * 10 ^ d + k mod 10 ^ d" by (rule div_mult_mod_eq [symmetric])
      then have "(of_nat k :: rat) = of_nat (k div 10 ^ d) * 10 ^ d + of_nat (k mod 10 ^ d)"
        by (metis of_nat_add of_nat_mult of_nat_numeral of_nat_power)
      then show ?thesis by (simp add: field_simps)
    qed
    then show ?thesis
      using False zero_pad_nat(1,3) [OF m(2) m(1)]
      by (simp add: render_fixed_def takeWhile_str_nat int_of_digits_str_nat)
  qed
  show ?thesis
    using v render_neg_differs [of k d]
    by (cases neg) (simp_all add: fixed_value_def unsigned_render Let_def)
qed

lemma rhe_sign: "0 \<le> q \<Longrightarrow> 0 \<le> round_half_even q" "q \<le> 0 \<Longrightarrow> round_half_even q \<le> 0"
  using rhe_mono [of 0 q] rhe_mono [of q 0] rhe_of_int [of 0] by simp_all

lemma scale10_nat: "scale10 q (int d) = q * 10 ^ d" "scale10 q (- int d) = q / 10 ^ d"
  by (auto simp add: scale10_def)

lemma format_round:
  "format_f (py_round (Fin v) (int d)) d
     = render_fixed (v < 0) (nat \<bar>round_half_even (v * 10 ^ d)\<bar>) d"
proof -
  define K where "K = round_half_even (v * 10 ^ d)"
  have p: "py_round (Fin v) (int d)
      = (if of_int K / 10 ^ d = (0 :: rat) \<and> v < 0 then NegZero else Fin (of_int K / 10 ^ d))"
    by (simp add: py_round_def scale10_nat K_def Let_def)
  have s1: "v < 0 \<Longrightarrow> K \<le> 0" and s2: "0 \<le> v \<Longrightarrow> 0 \<le> K"
    using rhe_sign [of "v * 10 ^ d"] by (simp_all add: K_def mult_le_0_iff zero_le_mult_iff)
  show ?thesis
  proof (cases "K = 0")
    case True
    then show ?thesis
      using p rhe_of_int [of 0]
      by (simp add: K_def [symmetric] format_f_def fin_val_def sign_bit_def render_fixed_def)
  next
    case False
    have "\<bar>(of_int K :: rat) / 10 ^ d\<bar> * 10 ^ d = of_int \<bar>K\<bar>"
      by (simp add: abs_divide)
    then have k: "round_half_even (\<bar>(of_int K :: rat) / 10 ^ d\<bar> * 10 ^ d) = \<bar>K\<bar>"
      using rhe_of_int [of "\<bar>K\<bar>"] by simp
    have "(K < 0) = (v < 0)"
    proof (cases "v < 0")
      case True
      then show ?thesis using s1 \<open>K \<noteq> 0\<close> by simp
    next
      case False
      then show ?thesis using s2 by simp
    qed
    then have sg: "((of_int K :: rat) / 10 ^ d < 0) = (v < 0)"
      by (simp add: divide_less_0_iff)
    show ?thesis
      using False p k sg
      by (simp add: K_def [symmetric] format_f_def fin_val_def sign_bit_def render_fixed_def Let_def)
  qed
qed

lemma fixed_value_format_round:
  "fixed_value (format_f (py_round (Fin v) (int d)) d)
     = of_int (round_half_even (v * 10 ^ d)) / 10 ^ d"
proof -
  define K where "K = round_half_even (v * 10 ^ d)"
  have s1: "v < 0 \<Longrightarrow> K \<le> 0" and s2: "0 \<le> v \<Longrightarrow> 0 \<le> K"
    using rhe_sign [of "v * 10 ^ d"] by (simp_all add: K_def mult_le_0_iff zero_le_mult_iff)
  have "(if v < 0 then - 1 else 1) * (of_nat (nat \<bar>K\<bar>) / 10 ^ d) = (of_int K / 10 ^ d :: rat)"
    using s1 s2 by (cases "v < 0") simp_all
  then show ?thesis
    by (simp only: format_round fixed_value_render K_def)
qed

lemma format_round_finite:
  assumes "is_finite val"
  shows "format_f (py_round val (int d)) d
     = render_fixed (sign_bit val) (nat \<bar>round_half_even (fin_val val * 10 ^ d)\<bar>) d"
proof (cases val)
  case (Fin v)
  then show ?thesis using format_round [of v d] by (simp add: sign_bit_def fin_val_def)
next
  case NegZero
  then show ?thesis
    using rhe_of_int [of 0]
    by (simp add: py_round_def format_f_def sign_bit_def fin_val_def render_fixed_def)
qed (use assms in \<open>simp_all add: is_finite_def\<close>)

lemma fixed_value_format_round_finite:
  assumes "is_finite val"
  shows "fixed_value (format_f (py_round val (int d)) d) = round_places d (fin_val val)"
proof (cases val)
  case (Fin v)
  then show ?thesis using fixed_value_format_round [of v d] by (simp add: fin_val_def round_places_def)
next
  case NegZero
  then show ?thesis
    using rhe_of_int [of 0]
    by (simp add: format_round_finite is_finite_def fixed_value_render sign_bit_def fin_val_def
        round_places_def)
qed (use assms in \<open>simp_all add: is_finite_def\<close>)

lemma format_not_finite:
  assumes "\<not> is_finite val"
  shows "format_f (py_round val n) d \<in> {''inf'', ''-inf'', ''nan''}"
  using assms by (cases val) (simp_all add: is_finite_def py_round_def format_f_def)

lemma fle_trans: "fle a b \<Longrightarrow> fle b c \<Longrightarrow> fle a c"
  by (auto simp add: fle_def)

lemma finite_between:
  assumes "fle (Fin 0) p" "fle p D" "is_finite D"
  shows "is_finite p"
  using assms by (cases p; cases D) (simp_all add: fle_def is_finite_def frank_def is_nan_def)

lemma fle_fin_val: "is_finite a \<Longrightarrow> is_finite b \<Longrightarrow> fle a b \<Longrightarrow> fin_val a \<le> fin_val b"
  by (cases a; cases b) (simp_all add: fle_def is_finite_def frank_def is_nan_def)

lemma rand_float_run:
  assumes "fle lo hi" "0 \<le> n"
  shows "rand_float E (VFloat lo) (VFloat hi) (VInt n) s
     = Inr (py_round (float_add E (float_mul E (Fin (of_nat (rnd s (rpos s) mod 2 ^ 53) / 2 ^ 53))
                                      (float_sub E hi lo)) lo) n,
            s\<lparr>rpos := Suc (rpos s)\<rparr>)"
proof -
  have g: "\<not> num_gt (VFloat lo) (VFloat hi)"
    using assms(1) by (auto simp add: num_gt_def fgt_def fle_def)
  have sub: "num_sub E (VFloat hi) (VFloat lo) = Inr (VFloat (float_sub E hi lo))"
    by (simp add: num_sub_def to_float_def)
  have rr: "random_random s
     = (of_nat (rnd s (rpos s) mod 2 ^ 53) / 2 ^ 53, s\<lparr>rpos := Suc (rpos s)\<rparr>)"
    by (simp add: random_random_def draw_def)
  show ?thesis
    using g assms(2) by (simp add: rand_float_def is_list_def rr sub to_float_def)
qed

lemma format_spec_nat:
  "d \<le> 2147483647 \<Longrightarrow> format_spec_f x (VInt (int d)) = Inr (format_f x d)"
  by (simp add: format_spec_f_def)

lemma float_column_run:
  assumes "fle lo hi" "d \<le> 2147483647"
  shows "bnd (rand_float E (VFloat lo) (VFloat hi) (VInt (int d)) s)
           (\<lambda>(x, s'). bnd (format_spec_f x (VInt (int d))) (\<lambda>r. Inr (r, s')))
     = Inr (format_f (py_round (float_add E (float_mul E
               (Fin (of_nat (rnd s (rpos s) mod 2 ^ 53) / 2 ^ 53)) (float_sub E hi lo)) lo) (int d)) d,
            s\<lparr>rpos := Suc (rpos s)\<rparr>)"
  by (simp only: rand_float_run [OF assms(1) of_nat_0_le_iff] bnd_Inr prod.case
      format_spec_nat [OF assms(2)])

lemma build_float:
  assumes "c = ''float'' \<or> c = ''price''"
    and "obj_at w cfg = Some (ODict m)"
    and "m ''min'' = Some mn" "m ''max'' = Some mx" "m ''decimals'' = Some dec"
  shows "build_generator E c cfg w
     = Inr (\<lambda>s. bnd (rand_float E mn mx dec s)
                   (\<lambda>(x, s'). bnd (format_spec_f x dec) (\<lambda>r. Inr (r, s'))), w)"
proof (cases "c = ''float''")
  case True
  then show ?thesis using assms(2-) by (simp add: build_generator_def dict_get_def)
next
  case False
  then have "c = ''price''" using assms(1) by simp
  then show ?thesis using assms(2-) by (simp add: build_generator_def dict_get_def)
qed

lemma round_error:
  fixes v :: rat
  shows "\<bar>of_int (round_half_even (v * 10 ^ d)) / 10 ^ d - v\<bar> \<le> 1 / (2 * 10 ^ d)"
proof -
  have "\<bar>of_int (round_half_even (v * 10 ^ d)) - v * 10 ^ d\<bar> \<le> 1 / 2"
    by (rule rhe_bounds)
  then have "\<bar>of_int (round_half_even (v * 10 ^ d)) - v * 10 ^ d\<bar> / 10 ^ d \<le> (1 / 2) / 10 ^ d"
    by (intro divide_right_mono) simp_all
  moreover have "\<bar>of_int (round_half_even (v * 10 ^ d)) - v * 10 ^ d\<bar> / 10 ^ d
      = \<bar>of_int (round_half_even (v * 10 ^ d)) / 10 ^ d - v\<bar>"
  proof -
    have "(of_int (round_half_even (v * 10 ^ d)) - v * 10 ^ d) / 10 ^ d
        = of_int (round_half_even (v * 10 ^ d)) / 10 ^ d - v"
      by (simp add: diff_divide_distrib)
    then have "\<bar>(of_int (round_half_even (v * 10 ^ d)) - v * 10 ^ d) / 10 ^ d\<bar>
        = \<bar>of_int (round_half_even (v * 10 ^ d)) / 10 ^ d - v\<bar>"
      by (rule arg_cong)
    then show ?thesis by (simp add: abs_divide)
  qed
  ultimately show ?thesis by simp
qed

lemma round_mono:
  fixes x y :: rat
  assumes "x \<le> y"
  shows "(of_int (round_half_even (x * 10 ^ d)) / 10 ^ d :: rat)
     \<le> of_int (round_half_even (y * 10 ^ d)) / 10 ^ d"
proof -
  have "x * 10 ^ d \<le> y * 10 ^ d" using assms by simp
  then have "round_half_even (x * 10 ^ d) \<le> round_half_even (y * 10 ^ d)" by (rule rhe_mono)
  then show ?thesis by (simp add: divide_right_mono)
qed


lemma round_places_error: "\<bar>round_places d v - v\<bar> \<le> 1 / (2 * 10 ^ d)"
  unfolding round_places_def by (rule round_error)

lemma round_places_mono: "x \<le> y \<Longrightarrow> round_places d x \<le> round_places d y"
  unfolding round_places_def by (rule round_mono)

lemma float_range:
  assumes "monotone_arith E lo hi" "is_finite (float_sub E hi lo)" "k < 2 ^ 53"
  shows "fle lo (float_add E (float_mul E (Fin (of_nat k / 2 ^ 53)) (float_sub E hi lo)) lo)"
    and "fle (float_add E (float_mul E (Fin (of_nat k / 2 ^ 53)) (float_sub E hi lo)) lo)
             (float_add E (float_sub E hi lo) lo)"
proof -
  let ?D = "float_sub E hi lo"
  let ?p = "float_mul E (Fin (of_nat k / 2 ^ 53)) ?D"
  have p: "fle (Fin 0) ?p" "fle ?p ?D"
    using assms by (simp_all add: monotone_arith_def)
  have fp: "is_finite ?p" using p assms(2) by (rule finite_between)
  have f0: "is_finite (Fin 0)" by (simp add: is_finite_def)
  have add: "is_finite a \<Longrightarrow> is_finite b \<Longrightarrow> fle a b
      \<Longrightarrow> fle (float_add E a lo) (float_add E b lo)" for a b
    using assms(1) by (simp add: monotone_arith_def)
  have "fle lo (float_add E (Fin 0) lo)" using assms(1) by (simp add: monotone_arith_def)
  moreover have "fle (float_add E (Fin 0) lo) (float_add E ?p lo)"
    using f0 fp p(1) by (rule add)
  ultimately show "fle lo (float_add E ?p lo)" by (rule fle_trans)
  show "fle (float_add E ?p lo) (float_add E ?D lo)"
    using fp assms(2) p(2) by (rule add)
qed

lemma rhe_small: "0 \<le> q \<Longrightarrow> q < 1 / 2 \<Longrightarrow> round_half_even q = 0"
proof -
  assume "0 \<le> q" "q < 1 / 2"
  moreover from this have "\<lfloor>q\<rfloor> = 0" by (intro floor_unique) simp_all
  ultimately show ?thesis by (simp add: round_half_even_def)
qed

lemma fle_finite: "is_finite a \<Longrightarrow> is_finite b \<Longrightarrow> fle a b = (fin_val a \<le> fin_val b)"
  by (cases a; cases b) (simp_all add: fle_def is_finite_def frank_def is_nan_def)

lemma fneg_finite: "is_finite a \<Longrightarrow> is_finite (fneg a) \<and> fin_val (fneg a) = - fin_val a"
  by (cases a) (simp_all add: is_finite_def fneg_def fin_val_def)

lemma exact_add_finite:
  "is_finite a \<Longrightarrow> is_finite b
    \<Longrightarrow> is_finite (exact_add a b) \<and> fin_val (exact_add a b) = fin_val a + fin_val b"
  by (cases a; cases b) (simp_all add: is_finite_def exact_add_def fin_val_def is_nan_def is_inf_def)

lemma exact_sub_finite:
  "is_finite a \<Longrightarrow> is_finite b
    \<Longrightarrow> is_finite (exact_sub a b) \<and> fin_val (exact_sub a b) = fin_val a - fin_val b"
  using exact_add_finite [of a "fneg b"] fneg_finite [of b] by (simp add: exact_sub_def)

lemma exact_mul_finite:
  "is_finite a \<Longrightarrow> is_finite b
    \<Longrightarrow> is_finite (exact_mul a b) \<and> fin_val (exact_mul a b) = fin_val a * fin_val b"
  by (cases a; cases b)
     (simp_all add: is_finite_def exact_mul_def fin_val_def is_nan_def is_inf_def is_zero_def)

lemma ex_env_monotone:
  assumes "is_finite lo" "is_finite hi" "fle lo hi"
  shows "monotone_arith ex_env lo hi"
proof -
  have f0: "is_finite (Fin 0)" "fin_val (Fin 0) = 0" by (simp_all add: is_finite_def fin_val_def)
  have le: "fin_val lo \<le> fin_val hi" using assms by (simp add: fle_finite)
  note D = exact_sub_finite [OF assms(2,1)]
  have c1: "fle (Fin 0) (exact_sub hi lo)"
    using D le f0 by (simp add: fle_finite)
  have c2: "fle lo (exact_add (Fin 0) lo)"
    using exact_add_finite [OF f0(1) assms(1)] assms(1) f0 by (simp add: fle_finite)
  have c3: "fle (Fin 0) (exact_mul (Fin (of_nat k / 2 ^ 53)) (exact_sub hi lo))
      \<and> fle (exact_mul (Fin (of_nat k / 2 ^ 53)) (exact_sub hi lo)) (exact_sub hi lo)"
    if k: "k < 2 ^ 53" for k :: nat
  proof -
    define u :: rat where "u = of_nat k / 2 ^ 53"
    have "(of_nat k :: rat) < of_nat (2 ^ 53)" using k by (simp only: of_nat_less_iff)
    then have u: "0 \<le> u" "u \<le> 1" by (simp_all add: u_def)
    have fu: "is_finite (Fin u)" "fin_val (Fin u) = u" by (simp_all add: is_finite_def fin_val_def)
    note M = exact_mul_finite [OF fu(1) conjunct1 [OF D]]
    have d0: "0 \<le> fin_val hi - fin_val lo" using le by simp
    have "u * (fin_val hi - fin_val lo) \<le> 1 * (fin_val hi - fin_val lo)"
      using u d0 by (intro mult_right_mono) simp_all
    moreover have "0 \<le> u * (fin_val hi - fin_val lo)" using u d0 by simp
    ultimately have "fle (Fin 0) (exact_mul (Fin u) (exact_sub hi lo))
      \<and> fle (exact_mul (Fin u) (exact_sub hi lo)) (exact_sub hi lo)"
      using M D f0 fu by (simp add: fle_finite)
    then show ?thesis by (simp only: u_def)
  qed
  have c4: "fle (exact_add p lo) (exact_add q lo)"
    if "is_finite p" "is_finite q" "fle p q" for p q
    using exact_add_finite [OF that(1) assms(1)] exact_add_finite [OF that(2) assms(1)] that
    by (simp add: fle_finite)
  show ?thesis
    using c1 c2 c3 c4 by (simp add: monotone_arith_def ex_env_def)
qed

lemma render_zero_1: "render_fixed False 0 1 = ''0.0''"
  by (simp add: render_fixed_def str_nat.simps zero_pad_def digit_char_def char_of_eq_iff)

lemma fixed_value_zero_1: "fixed_value ''0.0'' = 0"
  by (simp add: fixed_value_def unsigned_part_def is_digit_def int_of_digits_def digit_val_def)

text \<open>
  Claim C4, amended.  For a float or price configuration with finite bounds min \<le> max
  and d decimals, every call of the generator draws once, computes
  \<open>val = random() * (max - min) + min\<close> in the float arithmetic of the runtime, and
  returns \<open>round(val, d)\<close> printed with d places.  When val is finite the string is in
  fixed-point notation with exactly d digits after the point (no point when d is 0), and
  the number it denotes is val rounded to d places, within half a unit of the last place
  of val.  When the arithmetic has overflowed, the string is \<open>inf\<close>, \<open>-inf\<close> or \<open>nan\<close>.
  When \<open>max - min\<close> is finite and the arithmetic rounds monotonically, val lies between
  min and the float sum \<open>(max - min) + min\<close>, and the number printed lies between these
  two rounded to d places: it can be below min or above max by the rounding.
\<close>

theorem float_generator_fixed_point:
  assumes "c = ''float'' \<or> c = ''price''"
    and "obj_at w cfg = Some (ODict m)"
    and "m ''min'' = Some (VFloat lo)" and "m ''max'' = Some (VFloat hi)"
    and "m ''decimals'' = Some (VInt (int d))"
    and "is_finite lo" and "is_finite hi" and "fle lo hi" and "d \<le> 2147483647"
    and "monotone_arith E lo hi"
  shows "\<exists>g. build_generator E c cfg w = Inr (g, w)
     \<and> (\<forall>s. \<exists>out val top. g s = Inr (out, s\<lparr>rpos := Suc (rpos s)\<rparr>)
           \<and> val = float_add E (float_mul E (Fin (of_nat (rnd s (rpos s) mod 2 ^ 53) / 2 ^ 53))
                                   (float_sub E hi lo)) lo
           \<and> top = float_add E (float_sub E hi lo) lo
           \<and> out = format_f (py_round val (int d)) d
           \<and> (is_finite val \<longrightarrow>
                 fixed_point d out
               \<and> fixed_value out = round_places d (fin_val val)
               \<and> \<bar>fixed_value out - fin_val val\<bar> \<le> 1 / (2 * 10 ^ d))
           \<and> (\<not> is_finite val \<longrightarrow> out \<in> {''inf'', ''-inf'', ''nan''})
           \<and> (is_finite (float_sub E hi lo) \<longrightarrow>
                 fle lo val \<and> fle val top
               \<and> (is_finite val \<longrightarrow> round_places d (fin_val lo) \<le> fixed_value out)
               \<and> (is_finite val \<and> is_finite top \<longrightarrow>
                    fixed_value out \<le> round_places d (fin_val top))))"
proof -
  let ?g = "\<lambda>s. bnd (rand_float E (VFloat lo) (VFloat hi) (VInt (int d)) s)
                   (\<lambda>(x, s'). bnd (format_spec_f x (VInt (int d))) (\<lambda>r. Inr (r, s')))"
  have b: "build_generator E c cfg w = Inr (?g, w)"
    using assms(1-5) by (rule build_float)
  have "\<exists>out val top. ?g s = Inr (out, s\<lparr>rpos := Suc (rpos s)\<rparr>)
           \<and> val = float_add E (float_mul E (Fin (of_nat (rnd s (rpos s) mod 2 ^ 53) / 2 ^ 53))
                                   (float_sub E hi lo)) lo
           \<and> top = float_add E (float_sub E hi lo) lo
           \<and> out = format_f (py_round val (int d)) d
           \<and> (is_finite val \<longrightarrow>
                 fixed_point d out
               \<and> fixed_value out = round_places d (fin_val val)
               \<and> \<bar>fixed_value out - fin_val val\<bar> \<le> 1 / (2 * 10 ^ d))
           \<and> (\<not> is_finite val \<longrightarrow> out \<in> {''inf'', ''-inf'', ''nan''})
           \<and> (is_finite (float_sub E hi lo) \<longrightarrow>
                 fle lo val \<and> fle val top
               \<and> (is_finite val \<longrightarrow> round_places d (fin_val lo) \<le> fixed_value out)
               \<and> (is_finite val \<and> is_finite top \<longrightarrow>
                    fixed_value out \<le> round_places d (fin_val top)))" for s
  proof -
    define val where "val = float_add E (float_mul E
        (Fin (of_nat (rnd s (rpos s) mod 2 ^ 53) / 2 ^ 53)) (float_sub E hi lo)) lo"
    define top where "top = float_add E (float_sub E hi lo) lo"
    define out where "out = format_f (py_round val (int d)) d"
    have run: "?g s = Inr (out, s\<lparr>rpos := Suc (rpos s)\<rparr>)"
      unfolding out_def val_def using assms(8,9) by (rule float_column_run)
    have fin: "fixed_point d out \<and> fixed_value out = round_places d (fin_val val)
        \<and> \<bar>fixed_value out - fin_val val\<bar> \<le> 1 / (2 * 10 ^ d)" if f: "is_finite val"
    proof -
      have fp: "fixed_point d out"
        by (simp only: out_def format_round_finite [OF f] fixed_point_render)
      have fv: "fixed_value out = round_places d (fin_val val)"
        by (simp only: out_def fixed_value_format_round_finite [OF f])
      have er: "\<bar>fixed_value out - fin_val val\<bar> \<le> 1 / (2 * 10 ^ d)"
        unfolding fv by (rule round_places_error)
      show ?thesis using fp fv er by blast
    qed
    have nf: "out \<in> {''inf'', ''-inf'', ''nan''}" if "\<not> is_finite val"
      unfolding out_def using that by (rule format_not_finite)
    have rg: "fle lo val \<and> fle val top
        \<and> (is_finite val \<longrightarrow> round_places d (fin_val lo) \<le> fixed_value out)
        \<and> (is_finite val \<and> is_finite top \<longrightarrow> fixed_value out \<le> round_places d (fin_val top))"
      if D: "is_finite (float_sub E hi lo)"
    proof -
      have k: "rnd s (rpos s) mod 2 ^ 53 < 2 ^ 53" by simp
      have r: "fle lo val" "fle val top"
        unfolding val_def top_def using float_range [OF assms(10) D k] by blast+
      have l: "round_places d (fin_val lo) \<le> fixed_value out" if f: "is_finite val"
      proof -
        have "fin_val lo \<le> fin_val val" using assms(6) f r(1) by (rule fle_fin_val)
        then show ?thesis using fin [OF f] by (simp add: round_places_mono)
      qed
      have h: "fixed_value out \<le> round_places d (fin_val top)"
        if f: "is_finite val" and t: "is_finite top"
      proof -
        have "fin_val val \<le> fin_val top" using f t r(2) by (rule fle_fin_val)
        then show ?thesis using fin [OF f] by (simp add: round_places_mono)
      qed
      show ?thesis using r l h by blast
    qed
    show ?thesis
      using run val_def top_def out_def fin nf rg by blast
  qed
  then show ?thesis using b by blast
qed

text \<open>
  The claim as stated fails: with min 0.03125, max 0.046875 and one decimal, where every
  float operation is exact, the draw 0.5 gives 0.0390625 and the generator returns
  \<open>0.0\<close>, which denotes a number below min.
\<close>

theorem float_below_min_counterexample:
  "bnd (build_generator ex_env ''float'' 0
          (ex_world\<lparr>rnd := (\<lambda>i. 2 ^ 52),
             store := [ODict [''min'' \<mapsto> VFloat (Fin (1 / 32)),
               ''max'' \<mapsto> VFloat (Fin (3 / 64)), ''decimals'' \<mapsto> VInt 1]]\<rparr>))
       (\<lambda>(g, w'). outp (g w')) = Inr ''0.0''
   \<and> fixed_value ''0.0'' = 0
   \<and> \<not> (1 / 32 \<le> fixed_value ''0.0'')"
proof -
  let ?m = "[''min'' \<mapsto> VFloat (Fin (1 / 32)), ''max'' \<mapsto> VFloat (Fin (3 / 64)),
             ''decimals'' \<mapsto> VInt (int 1)]"
  let ?w = "ex_world\<lparr>rnd := (\<lambda>i. 2 ^ 52), store := [ODict ?m]\<rparr>"
  have b: "build_generator ex_env ''float'' 0 ?w
     = Inr (\<lambda>s. bnd (rand_float ex_env (VFloat (Fin (1 / 32))) (VFloat (Fin (3 / 64))) (VInt (int 1)) s)
                   (\<lambda>(x, s'). bnd (format_spec_f x (VInt (int 1))) (\<lambda>r. Inr (r, s'))), ?w)"
    by (rule build_float [where m = ?m]) (simp_all add: obj_at_def)
  have u: "(of_nat (rnd ?w (rpos ?w) mod 2 ^ 53) / 2 ^ 53 :: rat) = 1 / 2"
    by simp
  have v: "float_add ex_env (float_mul ex_env (Fin (1 / 2))
              (float_sub ex_env (Fin (3 / 64)) (Fin (1 / 32)))) (Fin (1 / 32)) = Fin (5 / 128)"
    by (simp add: ex_env_def exact_sub_def exact_add_def exact_mul_def fneg_def is_nan_def
        is_inf_def is_zero_def fin_val_def sign_bit_def)
  have r: "round_half_even (5 / 128 * 10 ^ 1) = 0"
    by (intro rhe_small) simp_all
  have fr: "format_f (py_round (Fin (5 / 128)) (int 1)) 1 = ''0.0''"
    using format_round [of "5 / 128" 1] r by (simp add: render_zero_1 del: One_nat_def)
  have "bnd (rand_float ex_env (VFloat (Fin (1 / 32))) (VFloat (Fin (3 / 64))) (VInt (int 1)) ?w)
           (\<lambda>(x, s'). bnd (format_spec_f x (VInt (int 1))) (\<lambda>r. Inr (r, s')))
     = Inr (format_f (py_round (float_add ex_env (float_mul ex_env
               (Fin (of_nat (rnd ?w (rpos ?w) mod 2 ^ 53) / 2 ^ 53))
               (float_sub ex_env (Fin (3 / 64)) (Fin (1 / 32)))) (Fin (1 / 32))) (int 1)) 1,
            ?w\<lparr>rpos := Suc (rpos ?w)\<rparr>)"
    by (rule float_column_run) (simp_all add: fle_def is_nan_def frank_def fin_val_def)
  then have run: "bnd (rand_float ex_env (VFloat (Fin (1 / 32))) (VFloat (Fin (3 / 64))) (VInt (int 1)) ?w)
           (\<lambda>(x, s'). bnd (format_spec_f x (VInt (int 1))) (\<lambda>r. Inr (r, s')))
     = Inr (''0.0'', ?w\<lparr>rpos := Suc (rpos ?w)\<rparr>)"
    by (simp only: u v fr)
  show ?thesis
    using b run by (simp add: outp_def fixed_value_zero_1)
qed

theorem float_generator_fixed_point_witness:
  "obj_at (ex_world\<lparr>store := [ODict [''min'' \<mapsto> VFloat (Fin 0), ''max'' \<mapsto> VFloat (Fin 100),
       ''decimals'' \<mapsto> VInt 2]]\<rparr>) 0
     = Some (ODict [''min'' \<mapsto> VFloat (Fin 0), ''max'' \<mapsto> VFloat (Fin 100), ''decimals'' \<mapsto> VInt 2])
   \<and> is_finite (Fin 0) \<and> is_finite (Fin 100) \<and> fle (Fin 0) (Fin 100)
   \<and> monotone_arith ex_env (Fin 0) (Fin 100)
   \<and> (\<exists>g. build_generator ex_env ''float'' 0
            (ex_world\<lparr>store := [ODict [''min'' \<mapsto> VFloat (Fin 0), ''max'' \<mapsto> VFloat (Fin 100),
               ''decimals'' \<mapsto> VInt 2]]\<rparr>)
          = Inr (g, ex_world\<lparr>store := [ODict [''min'' \<mapsto> VFloat (Fin 0),
               ''max'' \<mapsto> VFloat (Fin 100), ''decimals'' \<mapsto> VInt 2]]\<rparr>)
        \<and> (\<forall>s. \<exists>out val top. g s = Inr (out, s\<lparr>rpos := Suc (rpos s)\<rparr>)
              \<and> val = float_add ex_env (float_mul ex_env
                         (Fin (of_nat (rnd s (rpos s) mod 2 ^ 53) / 2 ^ 53))
                         (float_sub ex_env (Fin 100) (Fin 0))) (Fin 0)
              \<and> top = float_add ex_env (float_sub ex_env (Fin 100) (Fin 0)) (Fin 0)
              \<and> out = format_f (py_round val (int 2)) 2
              \<and> (is_finite val \<longrightarrow>
                    fixed_point 2 out
                  \<and> fixed_value out = round_places 2 (fin_val val)
                  \<and> \<bar>fixed_value out - fin_val val\<bar> \<le> 1 / (2 * 10 ^ 2))
              \<and> (\<not> is_finite val \<longrightarrow> out \<in> {''inf'', ''-inf'', ''nan''})
              \<and> (is_finite (float_sub ex_env (Fin 100) (Fin 0)) \<longrightarrow>
                    fle (Fin 0) val \<and> fle val top
                  \<and> (is_finite val \<longrightarrow> round_places 2 (fin_val (Fin 0)) \<le> fixed_value out)
                  \<and> (is_finite val \<and> is_finite top \<longrightarrow>
                       fixed_value out \<le> round_places 2 (fin_val top)))))"
proof -
  have f: "is_finite (Fin 0)" "is_finite (Fin 100)" "fle (Fin 0) (Fin 100)"
    by (simp_all add: is_finite_def fle_def is_nan_def frank_def fin_val_def)
  have m: "monotone_arith ex_env (Fin 0) (Fin 100)"
    using f by (rule ex_env_monotone)
  have o: "obj_at (ex_world\<lparr>store := [ODict [''min'' \<mapsto> VFloat (Fin 0), ''max'' \<mapsto> VFloat (Fin 100),
       ''decimals'' \<mapsto> VInt 2]]\<rparr>) 0
     = Some (ODict [''min'' \<mapsto> VFloat (Fin 0), ''max'' \<mapsto> VFloat (Fin 100), ''decimals'' \<mapsto> VInt 2])"
    by (simp add: obj_at_def)
  have d: "[''min'' \<mapsto> VFloat (Fin 0), ''max'' \<mapsto> VFloat (Fin 100), ''decimals'' \<mapsto> VInt 2]
             ''decimals'' = Some (VInt (int 2))"
    by simp
  show ?thesis
    using float_generator_fixed_point
      [where c = "''float''" and cfg = 0 and lo = "Fin 0" and hi = "Fin 100" and d = 2
         and E = ex_env, OF _ o _ _ d f _ m]
      f m o
    by simp
qed

section \<open>The date and date-time columns\<close>


lemma days_before_month_12: "days_before_month y 12 + 31 = days_in_year y"
  by (simp add: eval_nat_numeral days_in_month_def days_in_year_def)










lemma delta_days:
  "int (day_of_year (y, 12, 31)) - int (day_of_year (y, 1, 1)) = int (days_in_year y) - 1"
  using days_before_month_12 [of y] by (simp add: day_of_year_def)







section \<open>What a generator reads\<close>

named_theorems store_free_intros

lemma with_store_simps [simp]:
  "with_store st (Inl e) = Inl e"
  "with_store st (Inr (x, s)) = Inr (x, s\<lparr>store := st\<rparr>)"
  by (simp_all add: with_store_def)

lemma store_free_bnd [store_free_intros]:
  assumes "store_free f" and "\<And>x. store_free (g x)"
  shows "store_free (\<lambda>s. bnd (f s) (\<lambda>(x, s'). g x s'))"
proof -
  have "bnd (f (s\<lparr>store := st\<rparr>)) (\<lambda>(x, s'). g x s') = with_store st (bnd (f s) (\<lambda>(x, s'). g x s'))"
    for s st
  proof (cases "f s")
    case (Inl e)
    then show ?thesis using assms(1) by (simp add: store_free_def)
  next
    case (Inr p)
    obtain x s' where p: "p = (x, s')" by (cases p)
    have "f (s\<lparr>store := st\<rparr>) = Inr (x, s'\<lparr>store := st\<rparr>)"
      using assms(1) Inr p by (simp add: store_free_def)
    moreover have "g x (s'\<lparr>store := st\<rparr>) = with_store st (g x s')"
      using assms(2) [of x] by (simp add: store_free_def)
    ultimately show ?thesis using Inr p by simp
  qed
  then show ?thesis by (simp add: store_free_def)
qed

lemma store_free_Inr [store_free_intros]: "store_free (\<lambda>s. Inr (x, s))"
  by (simp add: store_free_def)

lemma store_free_Inl [store_free_intros]: "store_free (\<lambda>s. Inl e)"
  by (simp add: store_free_def)

lemma store_free_randint [store_free_intros]: "store_free (randint a b)"
  by (simp add: store_free_def randint_def draw_def)

lemma store_free_choice [store_free_intros]: "store_free (choice xs)"
  by (simp add: store_free_def choice_def draw_def)

lemma store_free_fake_call [store_free_intros]: "store_free (fake_call f)"
  by (simp add: store_free_def fake_call_def fdraw_def)

lemma store_free_rand_uuid [store_free_intros]: "store_free rand_uuid"
  by (simp add: store_free_def rand_uuid_def udraw_def)

lemma store_free_eta: "store_free f \<Longrightarrow> store_free (\<lambda>s. f s)"
  by simp

lemma store_free_rand_first_name [store_free_intros]: "store_free (rand_first_name E)"
  unfolding rand_first_name_def by (cases "FAKE E") (simp_all add: store_free_intros)

lemma store_free_rand_last_name [store_free_intros]: "store_free (rand_last_name E)"
  unfolding rand_last_name_def by (cases "FAKE E") (simp_all add: store_free_intros)

lemma store_free_rand_company [store_free_intros]: "store_free (rand_company E)"
  unfolding rand_company_def by (cases "FAKE E") (simp_all add: store_free_intros)

lemma store_free_rand_job [store_free_intros]: "store_free (rand_job E)"
  unfolding rand_job_def by (cases "FAKE E") (simp_all add: store_free_intros)

lemma store_free_rand_city [store_free_intros]: "store_free (rand_city E)"
  unfolding rand_city_def by (cases "FAKE E") (simp_all add: store_free_intros)

lemma store_free_rand_state [store_free_intros]: "store_free (rand_state E)"
  unfolding rand_state_def
  by (cases "FAKE E"; cases "fk_estado_sigla (the (FAKE E))") (simp_all add: store_free_intros)

lemma store_free_bnd_pure [store_free_intros]:
  assumes "\<And>x. store_free (g x)"
  shows "store_free (\<lambda>s. bnd c (\<lambda>x. g x s))"
  using assms by (cases c) (simp_all add: store_free_intros)

lemma store_free_if [store_free_intros]:
  "store_free f \<Longrightarrow> store_free g \<Longrightarrow> store_free (\<lambda>s. if b then f s else g s)"
  by (cases b) simp_all

lemma store_free_rand_full_name [store_free_intros]: "store_free (rand_full_name E)"
  unfolding rand_full_name_def
  by (cases "FAKE E") (simp_all add: store_free_intros)

lemma store_free_rand_email [store_free_intros]: "store_free (rand_email E)"
  unfolding rand_email_def
  by (cases "FAKE E") (simp_all add: store_free_intros)

lemma store_free_rand_phone [store_free_intros]: "store_free rand_phone"
  unfolding rand_phone_def by (intro store_free_intros)

lemma store_free_rand_address [store_free_intros]: "store_free (rand_address E)"
  unfolding rand_address_def
  by (cases "FAKE E") (simp_all add: store_free_intros)

lemma store_free_rand_digits [store_free_intros]: "store_free (rand_digits n)"
proof (induction n)
  case 0
  have "rand_digits 0 = (\<lambda>w. Inr ([], w))" by (rule ext) simp
  then show ?case by (simp add: store_free_intros)
next
  case (Suc n)
  have "rand_digits (Suc n)
      = (\<lambda>w. bnd (randint 0 9 w) (\<lambda>(d, w'). bnd (rand_digits n w') (\<lambda>(ds, w''). Inr (d # ds, w''))))"
    by (rule ext) simp
  then show ?case using Suc by (simp add: store_free_intros)
qed

lemma store_free_rand_cep [store_free_intros]: "store_free (rand_cep f)"
  unfolding rand_cep_def by (intro store_free_intros)

lemma store_free_rand_cpf [store_free_intros]: "store_free (rand_cpf f)"
  unfolding rand_cpf_def by (intro store_free_intros)

lemma store_free_choices [store_free_intros]: "store_free (choices xs k)"
proof (induction k)
  case 0
  have "choices xs 0 = (\<lambda>w. Inr ([], w))" by (rule ext) simp
  then show ?case by (simp add: store_free_intros)
next
  case (Suc k)
  have "choices xs (Suc k) (s\<lparr>store := st\<rparr>) = with_store st (choices xs (Suc k) s)" for s st
  proof -
    obtain u s' where r: "random_random s = (u, s')" by (cases "random_random s")
    then have r': "random_random (s\<lparr>store := st\<rparr>) = (u, s'\<lparr>store := st\<rparr>)"
      by (auto simp add: random_random_def draw_def)
    have "choices xs k (s'\<lparr>store := st\<rparr>) = with_store st (choices xs k s')"
      using Suc by (simp add: store_free_def)
    then show ?thesis
      by (cases "choices xs k s'") (auto simp add: r r')
  qed
  then show ?case by (simp add: store_free_def)
qed

lemma store_free_rand_sentence [store_free_intros]: "store_free (rand_sentence a b)"
  unfolding rand_sentence_def by (intro store_free_intros)

lemma store_free_rand_url [store_free_intros]: "store_free (rand_url E)"
  unfolding rand_url_def
  by (cases "FAKE E") (simp_all add: store_free_intros)

lemma store_free_rand_bool [store_free_intros]: "store_free rand_bool"
  unfolding rand_bool_def by (intro store_free_intros)

lemma store_free_rand_int [store_free_intros]: "store_free (rand_int a b)"
  unfolding rand_int_def
  by (cases a; cases b) (simp_all add: store_free_intros)

lemma store_free_rand_date [store_free_intros]: "store_free (rand_date E a b)"
  unfolding rand_date_def Let_def by (intro store_free_intros)

lemma store_free_rand_datetime [store_free_intros]: "store_free (rand_datetime E a b)"
  unfolding rand_datetime_def Let_def by (intro store_free_intros)

lemma store_free_rand_float [store_free_intros]: "store_free (rand_float E a b d)"
proof -
  have "rand_float E a b d (s\<lparr>store := st\<rparr>) = with_store st (rand_float E a b d s)" for s st
  proof -
    obtain u s' where r: "random_random s = (u, s')" by (cases "random_random s")
    then have r': "random_random (s\<lparr>store := st\<rparr>) = (u, s'\<lparr>store := st\<rparr>)"
      by (auto simp add: random_random_def draw_def)
    show ?thesis
      by (simp add: rand_float_def Let_def r r' bnd_def split: prod.splits sum.splits pyval.splits)
  qed
  then show ?thesis by (simp add: store_free_def)
qed


lemma store_free_float_column [store_free_intros]:
  "store_free (\<lambda>s. bnd (rand_float E mn mx dec s)
                     (\<lambda>(x, s'). bnd (format_spec_f x dec) (\<lambda>r. Inr (r, s'))))"
  by (intro store_free_intros)

lemma store_free_int_column [store_free_intros]:
  "store_free (\<lambda>s. bnd (rand_int mn mx s) (\<lambda>(v, s'). Inr (str_int v, s')))"
  by (intro store_free_intros)

lemma store_free_bool_column [store_free_intros]:
  "store_free (\<lambda>s. bnd (rand_bool s) (\<lambda>(b, s'). Inr (if b then ''true'' else ''false'', s')))"
  by (intro store_free_intros)

lemma build_generator_store_free:
  assumes "obj_at w cfg = Some (ODict m)" and "c \<noteq> ''picklist''"
  shows "\<exists>g. build_generator E c cfg w = Inr (g, w) \<and> store_free g"
  using assms by (simp add: build_generator_def dict_get_def store_free_intros)

lemma build_picklist:
  assumes "obj_at w cfg = Some (ODict m)"
  shows "build_generator E ''picklist'' cfg w
     = Inr (choice_of (case m ''options'' of Some v \<Rightarrow> v | None \<Rightarrow> VList (length (store w))),
            w\<lparr>store := store w @ [OList [''A'', ''B'', ''C'']]\<rparr>)"
proof -
  have "(\<lambda>s. choice_of x s) = choice_of x" for x by simp
  then show ?thesis
    using assms obj_at_alloc [OF assms]
    by (simp add: build_generator_def dict_get_def alloc_def)
qed

lemma choice_of_frame:
  assumes "\<And>a. options = VList a \<Longrightarrow> obj_at (s\<lparr>store := st\<rparr>) a = obj_at s a"
  shows "choice_of options (s\<lparr>store := st\<rparr>) = with_store st (choice_of options s)"
proof (cases options)
  case (VList a)
  have o: "obj_at (s\<lparr>store := st\<rparr>) a = obj_at s a" using assms VList by simp
  have c: "choice xs (s\<lparr>store := st\<rparr>) = with_store st (choice xs s)" for xs :: "string list"
    using store_free_choice [of xs] by (simp add: store_free_def)
  show ?thesis
    using VList o c by (simp add: choice_of_def split: option.splits pyobj.splits)
qed (simp_all add: choice_of_def)

lemma choice_of_rebind:
  assumes "obj_at s cfg = Some (ODict m0)"
  shows "choice_of options (s\<lparr>store := (store s)[cfg := ODict m']\<rparr>)
     = with_store ((store s)[cfg := ODict m']) (choice_of options s)"
proof (cases "options = VList cfg")
  case True
  have "obj_at (s\<lparr>store := (store s)[cfg := ODict m']\<rparr>) cfg = Some (ODict m')"
    using assms by (simp add: obj_at_def split: if_splits)
  then show ?thesis using True assms by (simp add: choice_of_def)
next
  case False
  show ?thesis
  proof (rule choice_of_frame)
    fix a assume "options = VList a"
    then have "a \<noteq> cfg" using False by simp
    then show "obj_at (s\<lparr>store := (store s)[cfg := ODict m']\<rparr>) a = obj_at s a"
      by (simp add: obj_at_def)
  qed
qed

text \<open>
  Claim C7, amended.  Applied to a configuration dict, \<open>build_generator\<close> returns a
  generator that has read the values of the configuration and never reads the dict again:
  for every column type, replacing the contents of the dict afterwards (binding a key to
  another value, adding or deleting keys) changes neither the outputs of the generator
  nor its draws.  For every type but the picklist the generator reads nothing of the
  store at all, so no mutation of an object can affect it.  The picklist generator has
  captured the list of options itself, not a copy: it reads that list when it is called,
  and depends on nothing else in the store.
\<close>

theorem generators_capture_values:
  assumes "obj_at w cfg = Some (ODict m)"
  shows "\<exists>g w1. build_generator E c cfg w = Inr (g, w1)
     \<and> (\<forall>s m0 m'. obj_at s cfg = Some (ODict m0) \<longrightarrow>
           g (s\<lparr>store := (store s)[cfg := ODict m']\<rparr>)
             = with_store ((store s)[cfg := ODict m']) (g s))
     \<and> (c \<noteq> ''picklist'' \<longrightarrow> store_free g)
     \<and> (c = ''picklist'' \<longrightarrow>
          (\<forall>a s st. (m ''options'' = Some (VList a) \<or> m ''options'' = None \<and> a = length (store w))
                    \<and> obj_at (s\<lparr>store := st\<rparr>) a = obj_at s a \<longrightarrow>
             g (s\<lparr>store := st\<rparr>) = with_store st (g s)))"
proof (cases "c = ''picklist''")
  case True
  let ?opt = "case m ''options'' of Some v \<Rightarrow> v | None \<Rightarrow> VList (length (store w))"
  have b: "build_generator E c cfg w
      = Inr (choice_of ?opt, w\<lparr>store := store w @ [OList [''A'', ''B'', ''C'']]\<rparr>)"
    unfolding True using assms by (rule build_picklist)
  have r: "choice_of ?opt (s\<lparr>store := (store s)[cfg := ODict m']\<rparr>)
      = with_store ((store s)[cfg := ODict m']) (choice_of ?opt s)"
    if "obj_at s cfg = Some (ODict m0)" for s m0 m'
    using that by (rule choice_of_rebind)
  have f: "choice_of ?opt (s\<lparr>store := st\<rparr>) = with_store st (choice_of ?opt s)"
    if "m ''options'' = Some (VList a) \<or> m ''options'' = None \<and> a = length (store w)"
      and "obj_at (s\<lparr>store := st\<rparr>) a = obj_at s a" for a s st
  proof (rule choice_of_frame)
    fix a' assume "?opt = VList a'"
    then have "a' = a" using that(1) by auto
    then show "obj_at (s\<lparr>store := st\<rparr>) a' = obj_at s a'" using that(2) by simp
  qed
  show ?thesis
    using True b r f by blast
next
  case False
  from build_generator_store_free [OF assms False]
  obtain g where g: "build_generator E c cfg w = Inr (g, w)" "store_free g" by blast
  have "g (s\<lparr>store := st\<rparr>) = with_store st (g s)" for s st
    using g(2) by (simp add: store_free_def)
  then show ?thesis using False g by blast
qed

text \<open>
  The claim as stated fails for the picklist: the collector stores the list of options
  in the configuration, the generator built from it returns \<open>A\<close>, and after the element
  of that list is replaced by \<open>Z\<close> the same generator returns \<open>Z\<close>.
\<close>

theorem picklist_mutation_counterexample:
  "bnd (get_column_config ex_env ''picklist'' [''A''] ex_world)
     (\<lambda>(cfg, inp, w1). Inr (obj_at w1 cfg, obj_at w1 1))
     = Inr (Some (ODict [''options'' \<mapsto> VList 1]), Some (OList [''A'']))
   \<and> bnd (get_column_config ex_env ''picklist'' [''A''] ex_world)
       (\<lambda>(cfg, inp, w1). bnd (build_generator ex_env ''picklist'' cfg w1)
          (\<lambda>(g, w2). outp (g w2))) = Inr ''A''
   \<and> bnd (get_column_config ex_env ''picklist'' [''A''] ex_world)
       (\<lambda>(cfg, inp, w1). bnd (build_generator ex_env ''picklist'' cfg w1)
          (\<lambda>(g, w2). outp (g (w2\<lparr>store := (store w2)[1 := OList [''Z'']]\<rparr>)))) = Inr ''Z''"
proof -
  let ?w = "ex_world\<lparr>store := [ODict [''options'' \<mapsto> VList 1], OList [''A'']]\<rparr>"
  have s: "strip ''A'' = ''A''" by (simp add: strip_def is_space_def)
  have c: "get_column_config ex_env ''picklist'' [''A''] ex_world = Inr (0, [], ?w)"
    by (simp add: get_column_config_def alloc_def prompt_str_def s dict_set_def obj_at_def
        ex_world_def)
  have b: "build_generator ex_env ''picklist'' 0 ?w
      = Inr (choice_of (VList 1), ?w\<lparr>store := store ?w @ [OList [''A'', ''B'', ''C'']]\<rparr>)"
    using build_picklist [where w = ?w and cfg = 0 and m = "[''options'' \<mapsto> VList 1]"]
    by (simp add: obj_at_def)
  show ?thesis
    unfolding c bnd_Inr prod.case b
    by (simp add: obj_at_def choice_of_def choice_def draw_def outp_def)
qed

theorem generators_capture_values_witness:
  "obj_at (ex_world\<lparr>store := [ODict [''options'' \<mapsto> VList 1], OList [''A'']]\<rparr>) 0
     = Some (ODict [''options'' \<mapsto> VList 1])
   \<and> (\<exists>g w1. build_generator ex_env ''picklist'' 0
                 (ex_world\<lparr>store := [ODict [''options'' \<mapsto> VList 1], OList [''A'']]\<rparr>)
               = Inr (g, w1)
        \<and> (\<forall>s m0 m'. obj_at s 0 = Some (ODict m0) \<longrightarrow>
              g (s\<lparr>store := (store s)[0 := ODict m']\<rparr>)
                = with_store ((store s)[0 := ODict m']) (g s))
        \<and> (\<forall>s st. obj_at (s\<lparr>store := st\<rparr>) 1 = obj_at s 1 \<longrightarrow>
              g (s\<lparr>store := st\<rparr>) = with_store st (g s)))"
  using generators_capture_values
    [where w = "ex_world\<lparr>store := [ODict [''options'' \<mapsto> VList 1], OList [''A'']]\<rparr>"
       and cfg = 0 and m = "[''options'' \<mapsto> VList 1]" and E = ex_env and c = "''picklist''"]
  by (simp add: obj_at_def)
section \<open>Runs with a seed\<close>

lemma COLUMN_TYPES_nth_15:
  "COLUMN_TYPES ! 15 = \<lparr>code = ''uuid'', label = ''UUID v4'', needs_config = False\<rparr>"
  by (simp add: COLUMN_TYPES_def mk_ColumnType_def)

lemma seeded_uuid_main:
  "map_sum id fst (main ex_env [''s'', ''42'', ''1'', ''16'', '''', ''1'', ''''] (ex_world\<lparr>urnd := (\<lambda>i. u)\<rparr>))
     = Inr (''dados_aleatorios.csv'',
            csv_writerow [''UUID v4''] @ csv_writerow [uuid_str (uuid4_int u)])"
proof -
  have s: "strip ''s'' = ''s''" "strip ''1'' = ''1''" "strip ''16'' = ''16''" "strip '''' = ''''"
    "strip ''42'' = ''42''"
    by (simp_all add: strip_def is_space_def)
  have d: "isdigit ''1''" "isdigit ''16''" "isdigit ''42''" "int_of_digits ''1'' = 1"
    "int_of_digits ''16'' = 16" "int_of_digits ''42'' = 42"
    by (simp_all add: isdigit_def is_digit_def int_of_digits_def digit_val_def)
  have yn: "prompt_yes_no False (''s'' # ls) = Inr (True, ls)" for ls
    by (simp add: s lower_def lower_char_def Let_def)
  have p0: "prompt_int None None (Some 42) (''42'' # ls) = Inr (42, ls)" for ls
    by (simp add: s d Let_def)
  have p1: "prompt_int (Some 1) (Some 200) (Some 5) (''1'' # ls) = Inr (1, ls)" for ls
    by (simp add: s d Let_def)
  have p2: "prompt_int (Some 1) (Some 22) (Some 1) (''16'' # ls) = Inr (16, ls)" for ls
    by (simp add: s d Let_def)
  have p3: "prompt_int (Some 1) (Some 10000000) (Some 1000) (''1'' # ls) = Inr (1, ls)" for ls
    by (simp add: s d Let_def)
  have p4: "prompt_str (Some x) ('''' # ls) = Inr (x, ls)" for x ls
    by (simp add: prompt_str_def s)
  have co: "can_open ex_env x" for x
    by (simp add: ex_env_def)
  define w1 where "w1 = apply_seed ex_env 42 (ex_world\<lparr>urnd := (\<lambda>i. u)\<rparr>)"
  have w1: "urnd w1 = (\<lambda>i. u)" "upos w1 = 0"
    by (simp_all add: w1_def apply_seed_def ex_env_def ex_world_def)
  have bg: "build_generator ex_env ''uuid'' a w = Inr (rand_uuid, w)" for a w
    by (simp add: build_generator_def)
  have cols: "build_columns ex_env (Suc 0) (''16'' # '''' # ls) w1
     = Inr ([(''UUID v4'', rand_uuid)], ls, w1\<lparr>store := store w1 @ [ODict Map.empty]\<rparr>)" for ls
    by (simp del: prompt_int.simps add: p2 p4 length_COLUMN_TYPES COLUMN_TYPES_nth_15 alloc_def bg)
  have ru: "rand_uuid (w1\<lparr>store := store w1 @ [ODict Map.empty]\<rparr>)
     = Inr (uuid_str (uuid4_int u), w1\<lparr>store := store w1 @ [ODict Map.empty], upos := Suc 0\<rparr>)"
    by (simp add: rand_uuid_def udraw_def w1)
  show ?thesis
    by (simp del: prompt_int.simps prompt_yes_no.simps build_columns.simps
          add: main_def yn p0 p1 p3 p4 co w1_def [symmetric] cols [simplified] ru)
qed

lemma uuid_str_0: "uuid_str (uuid4_int 0) = ''00000000-0000-4000-8000-000000000000''"
proof -
  have "uuid4_int 0 = 302240678275694148452352" by (simp add: uuid4_int_def)
  then show ?thesis
    by (simp add: uuid_str_def hex32_def upt_rec [of _ 32] hex_char_def char_of_eq_iff Let_def)
qed

lemma uuid_str_1: "uuid_str (uuid4_int 1) = ''00000000-0000-4000-8000-000000000001''"
proof -
  have "uuid4_int 1 = 302240678275694148452353" by (simp add: uuid4_int_def)
  then show ?thesis
    by (simp add: uuid_str_def hex32_def upt_rec [of _ 32] hex_char_def char_of_eq_iff Let_def)
qed

text \<open>
  Claim C8.  The claim does not hold of the code.  The seed reaches \<open>random\<close> and
  Faker, not \<open>uuid.uuid4()\<close>, which reads the entropy of the operating system.  Two
  runs that answer the prompts alike (a seed of 42, one column of type 16, UUID v4, one
  row) and differ only in that entropy write different files.
\<close>

theorem seeded_runs_differ:
  "map_sum id fst (main ex_env [''s'', ''42'', ''1'', ''16'', '''', ''1'', '''']
       (ex_world\<lparr>urnd := (\<lambda>i. 0)\<rparr>))
     = Inr (''dados_aleatorios.csv'',
            ''UUID v4'' @ [CHR 0x0D, CHR 0x0A] @
            ''00000000-0000-4000-8000-000000000000'' @ [CHR 0x0D, CHR 0x0A])
   \<and> map_sum id fst (main ex_env [''s'', ''42'', ''1'', ''16'', '''', ''1'', '''']
       (ex_world\<lparr>urnd := (\<lambda>i. 1)\<rparr>))
     = Inr (''dados_aleatorios.csv'',
            ''UUID v4'' @ [CHR 0x0D, CHR 0x0A] @
            ''00000000-0000-4000-8000-000000000001'' @ [CHR 0x0D, CHR 0x0A])
   \<and> map_sum id fst (main ex_env [''s'', ''42'', ''1'', ''16'', '''', ''1'', '''']
         (ex_world\<lparr>urnd := (\<lambda>i. 0)\<rparr>))
     \<noteq> map_sum id fst (main ex_env [''s'', ''42'', ''1'', ''16'', '''', ''1'', '''']
         (ex_world\<lparr>urnd := (\<lambda>i. 1)\<rparr>))"
  by (simp add: seeded_uuid_main uuid_str_0 uuid_str_1 [unfolded One_nat_def] csv_writerow_def
      csv_field_def
      csv_special_def)


end
